theory Spec2Isabelle
  imports Complex_Main "HOL-Library.Char_ord" "HOL-Library.List_Lexorder"
begin

section \<open>Python values\<close>

text \<open>
  The repository is Python. Its sensor values are Python floats, that is IEEE 754
  binary64 numbers. A float is modelled by the rational number it denotes, or by one
  of the three special values. The two zeros are identified: they compare equal and
  no modelled operation tells them apart.
\<close>

datatype pyfloat = Finite rat | PosInf | NegInf | NaN

datatype pyerror = TypeError | ValueError | OverflowError | ZeroDivisionError | OSError

text \<open>
  The values a flat JSON object or a Python dict of this program holds. A dict keeps its
  keys in insertion order, so it is an association list.
\<close>

datatype pyval = PInt int | PFloat pyfloat | PBool bool | PStr string | PNone

type_synonym pydict = "(string \<times> pyval) list"

subsection \<open>Rounding to binary64\<close>

text \<open>The number of binary digits of a positive integer.\<close>

function bitlen :: "int \<Rightarrow> int" where
  "bitlen n = (if n \<le> 0 then 0 else 1 + bitlen (n div 2))"
  by pat_completeness auto
termination
  by (relation "measure nat") auto

declare bitlen.simps [simp del]

text \<open>\<open>ilog2 q\<close> is the integer \<open>e\<close> with \<open>2 powi e \<le> q < 2 powi (e + 1)\<close>, for \<open>q > 0\<close>.\<close>

definition ilog2 :: "rat \<Rightarrow> int" where
  "ilog2 q =
     (let (a, b) = quotient_of q;
          d = bitlen a - bitlen b
      in if 2 powi d \<le> q then d else d - 1)"

definition round_half_even :: "rat \<Rightarrow> int" where
  "round_half_even x =
     (let f = \<lfloor>x\<rfloor>; d = x - of_int f
      in if d < 1 / 2 then f
         else if 1 / 2 < d then f + 1
         else if even f then f else f + 1)"

text \<open>
  Round to nearest, ties to even, with 53 significant bits, the subnormal range below
  \<open>2 powi - 1022\<close> and overflow to an infinity from \<open>2 powi 1024\<close> on.
\<close>

definition b64 :: "rat \<Rightarrow> pyfloat" where
  "b64 q =
     (if q = 0 then Finite 0
      else
        let a = \<bar>q\<bar>;
            e = max (ilog2 a) (- 1022);
            u = 2 powi (e - 52);
            r = of_int (round_half_even (a / u)) * u
        in if 2 powi 1024 \<le> r then (if 0 < q then PosInf else NegInf)
           else Finite (if 0 < q then r else - r))"

text \<open>The rationals that are binary64 numbers.\<close>

definition is_b64 :: "rat \<Rightarrow> bool" where
  "is_b64 q \<longleftrightarrow>
     (\<exists>m e. q = of_int m * 2 powi e \<and> \<bar>m\<bar> < 2 ^ 53 \<and> - 1074 \<le> e \<and> e \<le> 971)"

fun is_double :: "pyfloat \<Rightarrow> bool" where
  "is_double (Finite q) = is_b64 q"
| "is_double _ = True"

subsection \<open>Float operations\<close>

fun py_lt :: "pyfloat \<Rightarrow> pyfloat \<Rightarrow> bool" where
  "py_lt NaN _ = False"
| "py_lt _ NaN = False"
| "py_lt (Finite a) (Finite b) = (a < b)"
| "py_lt NegInf NegInf = False"
| "py_lt NegInf _ = True"
| "py_lt _ NegInf = False"
| "py_lt PosInf _ = False"
| "py_lt _ PosInf = True"

definition py_gt :: "pyfloat \<Rightarrow> pyfloat \<Rightarrow> bool" where
  "py_gt a b = py_lt b a"

text \<open>Python's \<open>max(a, b)\<close> keeps \<open>a\<close> unless \<open>b > a\<close>; \<open>min(a, b)\<close> keeps \<open>a\<close> unless \<open>b < a\<close>.\<close>

definition py_max :: "pyfloat \<Rightarrow> pyfloat \<Rightarrow> pyfloat" where
  "py_max a b = (if py_gt b a then b else a)"

definition py_min :: "pyfloat \<Rightarrow> pyfloat \<Rightarrow> pyfloat" where
  "py_min a b = (if py_lt b a then b else a)"

fun fadd :: "pyfloat \<Rightarrow> pyfloat \<Rightarrow> pyfloat" where
  "fadd NaN _ = NaN"
| "fadd _ NaN = NaN"
| "fadd (Finite a) (Finite b) = b64 (a + b)"
| "fadd PosInf NegInf = NaN"
| "fadd NegInf PosInf = NaN"
| "fadd PosInf _ = PosInf"
| "fadd NegInf _ = NegInf"
| "fadd _ PosInf = PosInf"
| "fadd _ NegInf = NegInf"

fun fneg :: "pyfloat \<Rightarrow> pyfloat" where
  "fneg (Finite a) = Finite (- a)"
| "fneg PosInf = NegInf"
| "fneg NegInf = PosInf"
| "fneg NaN = NaN"

fun fmul :: "pyfloat \<Rightarrow> pyfloat \<Rightarrow> pyfloat" where
  "fmul NaN _ = NaN"
| "fmul _ NaN = NaN"
| "fmul (Finite a) (Finite b) = b64 (a * b)"
| "fmul (Finite a) y = (if a = 0 then NaN else if 0 < a then y else fneg y)"
| "fmul x (Finite b) = (if b = 0 then NaN else if 0 < b then x else fneg x)"
| "fmul x y = (if x = y then PosInf else NegInf)"

text \<open>Python's float division raises on a zero divisor; otherwise it is IEEE division.\<close>

fun fdiv :: "pyfloat \<Rightarrow> pyfloat \<Rightarrow> pyerror + pyfloat" where
  "fdiv NaN (Finite b) = (if b = 0 then Inl ZeroDivisionError else Inr NaN)"
| "fdiv NaN _ = Inr NaN"
| "fdiv _ NaN = Inr NaN"
| "fdiv (Finite a) (Finite b) =
     (if b = 0 then Inl ZeroDivisionError else Inr (b64 (a / b)))"
| "fdiv (Finite a) _ = Inr (Finite 0)"
| "fdiv x (Finite b) =
     (if b = 0 then Inl ZeroDivisionError else Inr (if 0 < b then x else fneg x))"
| "fdiv _ _ = Inr NaN"

text \<open>
  \<open>float(v)\<close>. An int is rounded to the nearest float and raises OverflowError when too
  large; a string goes through Python's float parser, which is the parameter
  \<open>str_to_float\<close> (\<open>None\<close> where the parser raises ValueError).
\<close>

definition float_of_int :: "int \<Rightarrow> pyerror + pyfloat" where
  "float_of_int i =
     (case b64 (of_int i) of Finite r \<Rightarrow> Inr (Finite r) | _ \<Rightarrow> Inl OverflowError)"

fun py_float :: "(string \<Rightarrow> pyfloat option) \<Rightarrow> pyval \<Rightarrow> pyerror + pyfloat" where
  "py_float str_to_float (PInt i) = float_of_int i"
| "py_float str_to_float (PFloat x) = Inr x"
| "py_float str_to_float (PBool b) = Inr (Finite (if b then 1 else 0))"
| "py_float str_to_float (PStr s) =
     (case str_to_float s of None \<Rightarrow> Inl ValueError | Some x \<Rightarrow> Inr x)"
| "py_float str_to_float PNone = Inl TypeError"

text \<open>A float literal of the source denotes the binary64 number nearest to its decimal.\<close>

definition lit :: "rat \<Rightarrow> pyfloat" where
  "lit q = b64 q"

text \<open>\<open>d.get(k, default)\<close>, \<open>d[k] = v\<close> and the truth value of a Python object.\<close>

definition dict_get :: "pydict \<Rightarrow> string \<Rightarrow> pyval \<Rightarrow> pyval" where
  "dict_get d k dflt = (case map_of d k of None \<Rightarrow> dflt | Some v \<Rightarrow> v)"

fun dict_set :: "pydict \<Rightarrow> string \<Rightarrow> pyval \<Rightarrow> pydict" where
  "dict_set [] k v = [(k, v)]"
| "dict_set ((k', v') # d) k v = (if k' = k then (k, v) # d else (k', v') # dict_set d k v)"

fun py_truthy :: "pyval \<Rightarrow> bool" where
  "py_truthy (PBool b) = b"
| "py_truthy (PInt i) = (i \<noteq> 0)"
| "py_truthy (PFloat x) = (x \<noteq> Finite 0)"
| "py_truthy (PStr s) = (s \<noteq> [])"
| "py_truthy PNone = False"

section \<open>The anomaly scorer: \<open>process_sensor_data\<close> of \<open>app/sensor_data.py\<close>\<close>

text \<open>
  The input is the raw sample dict, the result the scored dict, or the exception that
  \<open>float\<close> or a division raises. \<open>now\<close> is the formatted clock reading.
\<close>

definition process_sensor_data ::
  "(string \<Rightarrow> pyfloat option) \<Rightarrow> string \<Rightarrow> pydict \<Rightarrow> pyerror + pydict"
where
  "process_sensor_data str_to_float now data =
    (case py_float str_to_float (dict_get data ''temperature'' (PInt 0)) of
       Inl e \<Rightarrow> Inl e | Inr temperature \<Rightarrow>
    (case py_float str_to_float (dict_get data ''vibration'' (PInt 0)) of
       Inl e \<Rightarrow> Inl e | Inr vibration \<Rightarrow>
    (case py_float str_to_float (dict_get data ''pressure'' (PInt 0)) of
       Inl e \<Rightarrow> Inl e | Inr pressure \<Rightarrow>
    (case py_float str_to_float (dict_get data ''rpm'' (PInt 0)) of
       Inl e \<Rightarrow> Inl e | Inr rpm \<Rightarrow>
    (let machine_id = dict_get data ''machine_id'' (PStr ''unknown'');
         timestamp = now
     in
    (case fdiv vibration (py_max rpm (Finite 1)) of
       Inl e \<Rightarrow> Inl e | Inr vibration_to_rpm_ratio \<Rightarrow>
    (case fdiv temperature (py_max pressure (lit (1 / 10))) of
       Inl e \<Rightarrow> Inl e | Inr temperature_pressure_ratio \<Rightarrow>
    (let temp_normal = (Finite 50, Finite 90);
         vibration_normal = (lit (1 / 10), lit 5);
         pressure_normal = (lit (8 / 10), lit (12 / 10));
         rpm_normal = (Finite 1000, Finite 3000);
         temp_anomaly =
           (py_lt temperature (fst temp_normal) \<or> py_gt temperature (snd temp_normal));
         vibration_anomaly =
           (py_lt vibration (fst vibration_normal) \<or> py_gt vibration (snd vibration_normal));
         pressure_anomaly =
           (py_lt pressure (fst pressure_normal) \<or> py_gt pressure (snd pressure_normal));
         rpm_anomaly =
           (py_lt rpm (fst rpm_normal) \<or> py_gt rpm (snd rpm_normal));
         anomaly_detected =
           (temp_anomaly \<or> vibration_anomaly \<or> pressure_anomaly \<or> rpm_anomaly);
         processed_data =
           [(''timestamp'', PStr timestamp),
            (''machine_id'', machine_id),
            (''temperature'', PFloat temperature),
            (''vibration'', PFloat vibration),
            (''pressure'', PFloat pressure),
            (''rpm'', PFloat rpm),
            (''vibration_to_rpm_ratio'', PFloat vibration_to_rpm_ratio),
            (''temperature_pressure_ratio'', PFloat temperature_pressure_ratio),
            (''temp_anomaly'', PBool temp_anomaly),
            (''vibration_anomaly'', PBool vibration_anomaly),
            (''pressure_anomaly'', PBool pressure_anomaly),
            (''rpm_anomaly'', PBool rpm_anomaly),
            (''anomaly_detected'', PBool anomaly_detected)]
     in
       if anomaly_detected then
         (let failure_probability = Finite 0;
              failure_type = ''Unknown'';
              (failure_probability, failure_type) =
                (if temp_anomaly \<and> py_gt temperature (snd temp_normal)
                 then (fadd failure_probability (lit (3 / 10)), ''Overheating'')
                 else (failure_probability, failure_type));
              (failure_probability, failure_type) =
                (if vibration_anomaly \<and> py_gt vibration (snd vibration_normal)
                 then (fadd failure_probability (lit (4 / 10)),
                       if failure_type = ''Unknown'' then ''Bearing Failure'' else failure_type)
                 else (failure_probability, failure_type));
              (failure_probability, failure_type) =
                (if pressure_anomaly
                 then (fadd failure_probability (lit (2 / 10)),
                       if failure_type = ''Unknown'' then ''Pressure Issue'' else failure_type)
                 else (failure_probability, failure_type));
              (failure_probability, failure_type) =
                (if rpm_anomaly
                 then (fadd failure_probability (lit (1 / 10)),
                       if failure_type = ''Unknown'' then ''Motor Issue'' else failure_type)
                 else (failure_probability, failure_type));
              processed_data = dict_set processed_data ''failure_probability''
                (PFloat (py_min failure_probability (lit (95 / 100))));
              processed_data = dict_set processed_data ''failure_type'' (PStr failure_type)
          in Inr processed_data)
       else Inr processed_data))))))))"

subsection \<open>The documented rules, for comparison with the code\<close>

text \<open>A field of the dict that a call returned, if it returned one.\<close>

definition result_field :: "pyerror + pydict \<Rightarrow> string \<Rightarrow> pyval option" where
  "result_field res k = (case res of Inl e \<Rightarrow> None | Inr s \<Rightarrow> map_of s k)"

text \<open>
  The value the scorer reads for a field: the field converted by \<open>float\<close>, with 0 for a
  missing key.
\<close>

definition scored_field :: "(string \<Rightarrow> pyfloat option) \<Rightarrow> pydict \<Rightarrow> string \<Rightarrow> pyerror + pyfloat" where
  "scored_field str_to_float data k = py_float str_to_float (dict_get data k (PInt 0))"

definition scored_values ::
  "(string \<Rightarrow> pyfloat option) \<Rightarrow> pydict \<Rightarrow> (pyfloat \<times> pyfloat \<times> pyfloat \<times> pyfloat) option"
where
  "scored_values str_to_float data =
     (case (scored_field str_to_float data ''temperature'',
            scored_field str_to_float data ''vibration'',
            scored_field str_to_float data ''pressure'',
            scored_field str_to_float data ''rpm'') of
        (Inr t, Inr v, Inr p, Inr m) \<Rightarrow> Some (t, v, p, m)
      | _ \<Rightarrow> None)"

text \<open>
  The normal ranges are closed intervals with the decimal bounds of the documentation.
  A value is below or above a bound in the order of the floats, in which NaN is
  neither; it lies outside a range when it is below the lower or above the upper bound.
\<close>

definition below :: "rat \<Rightarrow> pyfloat \<Rightarrow> bool" where
  "below lo x = py_lt x (Finite lo)"

definition above :: "rat \<Rightarrow> pyfloat \<Rightarrow> bool" where
  "above hi x = py_lt (Finite hi) x"

definition outside_range :: "rat \<Rightarrow> rat \<Rightarrow> pyfloat \<Rightarrow> bool" where
  "outside_range lo hi x = (below lo x \<or> above hi x)"

fun in_range :: "rat \<Rightarrow> rat \<Rightarrow> pyfloat \<Rightarrow> bool" where
  "in_range lo hi (Finite q) = (lo \<le> q \<and> q \<le> hi)"
| "in_range lo hi _ = False"

text \<open>The four rule categories in their fixed evaluation order.\<close>

datatype category = Temperature | Vibration | Pressure | Rpm

definition rule_order :: "category list" where
  "rule_order = [Temperature, Vibration, Pressure, Rpm]"

fun category_matches :: "category \<Rightarrow> pyfloat \<times> pyfloat \<times> pyfloat \<times> pyfloat \<Rightarrow> bool" where
  "category_matches Temperature (t, v, p, m) = above 90 t"
| "category_matches Vibration (t, v, p, m) = above 5 v"
| "category_matches Pressure (t, v, p, m) = outside_range (4 / 5) (6 / 5) p"
| "category_matches Rpm (t, v, p, m) = outside_range 1000 3000 m"

fun category_type :: "category \<Rightarrow> string" where
  "category_type Temperature = ''Overheating''"
| "category_type Vibration = ''Bearing Failure''"
| "category_type Pressure = ''Pressure Issue''"
| "category_type Rpm = ''Motor Issue''"

fun category_weight :: "category \<Rightarrow> pyfloat" where
  "category_weight Temperature = lit (3 / 10)"
| "category_weight Vibration = lit (4 / 10)"
| "category_weight Pressure = lit (2 / 10)"
| "category_weight Rpm = lit (1 / 10)"

definition first_matching_type :: "pyfloat \<times> pyfloat \<times> pyfloat \<times> pyfloat \<Rightarrow> string" where
  "first_matching_type x =
     (case find (\<lambda>c. category_matches c x) rule_order of
        None \<Rightarrow> ''Unknown'' | Some c \<Rightarrow> category_type c)"

definition accumulated_probability :: "pyfloat \<times> pyfloat \<times> pyfloat \<times> pyfloat \<Rightarrow> pyfloat" where
  "accumulated_probability x =
     py_min (foldl fadd (Finite 0) (map category_weight (filter (\<lambda>c. category_matches c x) rule_order)))
       (lit (95 / 100))"

text \<open>A sample is well formed when its floats are binary64 numbers.\<close>

definition wf_floats :: "(string \<Rightarrow> pyfloat option) \<Rightarrow> pydict \<Rightarrow> bool" where
  "wf_floats str_to_float data \<longleftrightarrow>
     (\<forall>s x. str_to_float s = Some x \<longrightarrow> is_double x) \<and>
     (\<forall>k x. (k, PFloat x) \<in> set data \<longrightarrow> is_double x)"

definition sample_matches :: "(string \<Rightarrow> pyfloat option) \<Rightarrow> pydict \<Rightarrow> category \<Rightarrow> bool" where
  "sample_matches str_to_float data c =
     (case scored_values str_to_float data of None \<Rightarrow> False | Some x \<Rightarrow> category_matches c x)"

text \<open>The conditions the code tests for the four categories, on the converted values.\<close>

definition code_match :: "pyfloat \<times> pyfloat \<times> pyfloat \<times> pyfloat \<Rightarrow> category \<Rightarrow> bool" where
  "code_match x c = (case x of (t, v, p, m) \<Rightarrow> (case c of
       Temperature \<Rightarrow> py_gt t (Finite 90)
     | Vibration \<Rightarrow> py_gt v (lit 5)
     | Pressure \<Rightarrow> py_lt p (lit (4 / 5)) \<or> py_gt p (lit (6 / 5))
     | Rpm \<Rightarrow> py_lt m (Finite 1000) \<or> py_gt m (Finite 3000)))"

text \<open>
  The sixteen values of the capped sum, by the categories that match (temperature,
  vibration, pressure, rpm), as the binary64 additions produce them.
\<close>

fun probability_value :: "bool \<Rightarrow> bool \<Rightarrow> bool \<Rightarrow> bool \<Rightarrow> rat" where
  "probability_value False False False False = 0"
| "probability_value False False False True = 3602879701896397 / 36028797018963968"
| "probability_value False False True False = 3602879701896397 / 18014398509481984"
| "probability_value False False True True = 1351079888211149 / 4503599627370496"
| "probability_value False True False False = 3602879701896397 / 9007199254740992"
| "probability_value False True False True = 1 / 2"
| "probability_value False True True False = 1351079888211149 / 2251799813685248"
| "probability_value False True True True = 6305039478318695 / 9007199254740992"
| "probability_value True False False False = 5404319552844595 / 18014398509481984"
| "probability_value True False False True = 3602879701896397 / 9007199254740992"
| "probability_value True False True False = 1 / 2"
| "probability_value True False True True = 5404319552844595 / 9007199254740992"
| "probability_value True True False False = 3152519739159347 / 4503599627370496"
| "probability_value True True False True = 7205759403792793 / 9007199254740992"
| "probability_value True True True False = 2026619832316723 / 2251799813685248"
| "probability_value True True True True = 4278419646001971 / 4503599627370496"

section \<open>The mock generator: \<open>generate_mock_data\<close> of \<open>app/sensor_connector.py\<close>\<close>

text \<open>
  One iteration of the loop draws five random integers and reads the clock. The
  expression \<open>2 * 3.14159 * rotation_speed * torque / 60\<close> is evaluated from the left:
  each int operand is converted to a float, which raises OverflowError when it is too
  large, and each operation rounds.
\<close>

record draw =
  tool_wear :: int
  air_temp :: int
  process_temp :: int
  rotation_speed :: int
  torque :: int
  time_now :: pyfloat

text \<open>The ranges of the \<open>random.randint\<close> calls.\<close>

definition randint_ranges :: "draw \<Rightarrow> bool" where
  "randint_ranges d \<longleftrightarrow>
     0 \<le> tool_wear d \<and> tool_wear d \<le> 300 \<and>
     290 \<le> air_temp d \<and> air_temp d \<le> 310 \<and>
     290 \<le> process_temp d \<and> process_temp d \<le> 330 \<and>
     1000 \<le> rotation_speed d \<and> rotation_speed d \<le> 3000 \<and>
     5 \<le> torque d \<and> torque d \<le> 75"

definition mock_sample :: "draw \<Rightarrow> pyerror + pydict" where
  "mock_sample d =
     (let data =
        [(''tool_wear'', PInt (tool_wear d)),
         (''air_temp'', PInt (air_temp d)),
         (''process_temp'', PInt (process_temp d)),
         (''rotation_speed'', PInt (rotation_speed d)),
         (''torque'', PInt (torque d)),
         (''timestamp'', PFloat (time_now d))];
          data = dict_set data ''temp_diff'' (PInt (process_temp d - air_temp d))
      in
        (case float_of_int (rotation_speed d) of
           Inl e \<Rightarrow> Inl e | Inr rs \<Rightarrow>
        (case float_of_int (torque d) of
           Inl e \<Rightarrow> Inl e | Inr tq \<Rightarrow>
        (case fdiv (fmul (fmul (fmul (Finite 2) (lit (314159 / 100000))) rs) tq) (Finite 60) of
           Inl e \<Rightarrow> Inl e
         | Inr power' \<Rightarrow> Inr (dict_set data ''power'' (PFloat power'))))))"

text \<open>
  The loop \<open>while True\<close> never returns. Its first iterations are modelled on the list
  of their draws: each puts its sample at the end of the queue, and an exception ends
  the loop.
\<close>

fun generate_mock_data :: "draw list \<Rightarrow> pydict list \<Rightarrow> pyerror + pydict list" where
  "generate_mock_data [] data_queue = Inr data_queue"
| "generate_mock_data (d # ds) data_queue =
     (case mock_sample d of
        Inl e \<Rightarrow> Inl e
      | Inr data \<Rightarrow> generate_mock_data ds (data_queue @ [data]))"

text \<open>
  What a sample carries. Its raw fields are the values drawn. Its derived fields agree
  with its own raw fields: \<open>temp_diff\<close> is the difference of the \<open>process_temp\<close> and the
  \<open>air_temp\<close> it holds, and \<open>power\<close> is the formula on the \<open>rotation_speed\<close> and the
  \<open>torque\<close> it holds, with the literal 3.14159 in the place of \<open>\<pi>\<close>, up to the rounding of
  the three float operations.
\<close>

definition int_field :: "pydict \<Rightarrow> string \<Rightarrow> int option" where
  "int_field s k = (case map_of s k of Some (PInt i) \<Rightarrow> Some i | _ \<Rightarrow> None)"

definition carries_draw :: "draw \<Rightarrow> pydict \<Rightarrow> bool" where
  "carries_draw d s \<longleftrightarrow>
     map_of s ''tool_wear'' = Some (PInt (tool_wear d)) \<and>
     map_of s ''air_temp'' = Some (PInt (air_temp d)) \<and>
     map_of s ''process_temp'' = Some (PInt (process_temp d)) \<and>
     map_of s ''rotation_speed'' = Some (PInt (rotation_speed d)) \<and>
     map_of s ''torque'' = Some (PInt (torque d)) \<and>
     map_of s ''timestamp'' = Some (PFloat (time_now d))"

definition power_formula :: "int \<Rightarrow> int \<Rightarrow> rat" where
  "power_formula rs tq = 2 * (314159 / 100000) * of_int rs * of_int tq / 60"

definition derived_fields :: "pydict \<Rightarrow> bool" where
  "derived_fields s \<longleftrightarrow>
     (case (int_field s ''process_temp'', int_field s ''air_temp'',
            int_field s ''rotation_speed'', int_field s ''torque'') of
        (Some tp, Some ta, Some rs, Some tq) \<Rightarrow>
          map_of s ''temp_diff'' = Some (PInt (tp - ta)) \<and>
          (case map_of s ''power'' of
             Some (PFloat (Finite q)) \<Rightarrow>
               \<bar>q - power_formula rs tq\<bar> \<le> power_formula rs tq / 2 ^ 50
           | _ \<Rightarrow> False)
      | _ \<Rightarrow> False)"

section \<open>The sink: \<open>store_data\<close> of \<open>app/sensor_data.py\<close>\<close>

text \<open>
  A file is the list of the pieces written to it: the header and the rows that
  \<open>to_csv\<close> writes, or the document that \<open>json.dump\<close> writes. The file system maps the
  paths of the regular files to their contents. Whether a write to a path raises is a
  fact of the environment, recorded in \<open>write_fails\<close>; \<open>stdout\<close> receives what \<open>print\<close>
  writes.
\<close>

datatype chunk = HeaderLine "string list" | RowLine "pyval list" | JsonDoc pydict

record sink_world =
  files :: "string \<rightharpoonup> chunk list"
  write_fails :: "string \<Rightarrow> bool"
  stdout :: "string list"

text \<open>\<open>os.path.join\<close> of two components and \<open>os.path.basename\<close>, on POSIX paths.\<close>

definition path_join :: "string \<Rightarrow> string \<Rightarrow> string" where
  "path_join a b =
     (if b \<noteq> [] \<and> hd b = CHR ''/'' then b
      else if a = [] \<or> last a = CHR ''/'' then a @ b
      else a @ ''/'' @ b)"

definition basename :: "string \<Rightarrow> string" where
  "basename p = rev (takeWhile (\<lambda>c. c \<noteq> CHR ''/'') (rev p))"

text \<open>
  \<open>str(v)\<close>, as an f-string applies it. The decimal notation of a number is left to the
  parameter \<open>num_repr\<close>.
\<close>

fun py_str :: "(pyval \<Rightarrow> string) \<Rightarrow> pyval \<Rightarrow> string" where
  "py_str num_repr (PStr s) = s"
| "py_str num_repr (PBool b) = (if b then ''True'' else ''False'')"
| "py_str num_repr PNone = ''None''"
| "py_str num_repr v = num_repr v"

text \<open>\<open>df.to_csv(path, mode='a', header=h, index=False)\<close> for the one-row frame of a record.\<close>

definition to_csv_append :: "sink_world \<Rightarrow> string \<Rightarrow> bool \<Rightarrow> pydict \<Rightarrow> pyerror + sink_world" where
  "to_csv_append w path header row =
     (if write_fails w path then Inl OSError
      else Inr (w\<lparr>files := (files w)(path \<mapsto>
             (case files w path of None \<Rightarrow> [] | Some c \<Rightarrow> c) @
             (if header then [HeaderLine (map fst row)] else []) @
             [RowLine (map snd row)])\<rparr>))"

text \<open>\<open>with open(path, 'w') as f: json.dump(d, f, indent=2)\<close>\<close>

definition json_dump_file :: "sink_world \<Rightarrow> string \<Rightarrow> pydict \<Rightarrow> pyerror + sink_world" where
  "json_dump_file w path d =
     (if write_fails w path then Inl OSError
      else Inr (w\<lparr>files := (files w)(path \<mapsto> [JsonDoc d])\<rparr>))"

text \<open>The \<open>except\<close> branch: print the error, return False.\<close>

definition store_failed :: "sink_world \<Rightarrow> bool \<times> sink_world" where
  "store_failed w = (False, w\<lparr>stdout := stdout w @ [''Error storing data'']\<rparr>)"

definition store_data ::
  "(pyval \<Rightarrow> string) \<Rightarrow> string \<Rightarrow> sink_world \<Rightarrow> pydict \<Rightarrow> bool \<times> sink_world"
where
  "store_data num_repr DATA_DIR w processed_data =
     (let machine_id = dict_get processed_data ''machine_id'' (PStr ''unknown'');
          csv_file = path_join DATA_DIR (py_str num_repr machine_id @ ''_sensor_data.csv'');
          file_exists = (files w csv_file \<noteq> None)
      in
        case to_csv_append w csv_file (\<not> file_exists) processed_data of
          Inl e \<Rightarrow> store_failed w
        | Inr w1 \<Rightarrow>
            if py_truthy (dict_get processed_data ''anomaly_detected'' (PBool False)) then
              (let alert_file = path_join DATA_DIR (py_str num_repr machine_id @ ''_alerts.csv'');
                   alert_exists = (files w1 alert_file \<noteq> None)
               in
                 case to_csv_append w1 alert_file (\<not> alert_exists) processed_data of
                   Inl e \<Rightarrow> store_failed w1
                 | Inr w2 \<Rightarrow>
                     (let alert_json =
                            path_join DATA_DIR (py_str num_repr machine_id @ ''_latest_alert.json'')
                      in
                        case json_dump_file w2 alert_json processed_data of
                          Inl e \<Rightarrow> store_failed w2
                        | Inr w3 \<Rightarrow> (True, w3)))
            else (True, w1))"

text \<open>The three paths of a record, and what an append adds to a file.\<close>

definition sensor_csv_path :: "(pyval \<Rightarrow> string) \<Rightarrow> string \<Rightarrow> pydict \<Rightarrow> string" where
  "sensor_csv_path num_repr DATA_DIR d =
     path_join DATA_DIR
       (py_str num_repr (dict_get d ''machine_id'' (PStr ''unknown'')) @ ''_sensor_data.csv'')"

definition alerts_csv_path :: "(pyval \<Rightarrow> string) \<Rightarrow> string \<Rightarrow> pydict \<Rightarrow> string" where
  "alerts_csv_path num_repr DATA_DIR d =
     path_join DATA_DIR
       (py_str num_repr (dict_get d ''machine_id'' (PStr ''unknown'')) @ ''_alerts.csv'')"

definition latest_alert_path :: "(pyval \<Rightarrow> string) \<Rightarrow> string \<Rightarrow> pydict \<Rightarrow> string" where
  "latest_alert_path num_repr DATA_DIR d =
     path_join DATA_DIR
       (py_str num_repr (dict_get d ''machine_id'' (PStr ''unknown'')) @ ''_latest_alert.json'')"

definition appended :: "sink_world \<Rightarrow> string \<Rightarrow> pydict \<Rightarrow> chunk list" where
  "appended w path d =
     (case files w path of
        None \<Rightarrow> [HeaderLine (map fst d), RowLine (map snd d)]
      | Some c \<Rightarrow> c @ [RowLine (map snd d)])"

definition anomalous :: "pydict \<Rightarrow> bool" where
  "anomalous d = py_truthy (dict_get d ''anomaly_detected'' (PBool False))"

section \<open>The change monitor: \<open>ModelMonitor\<close> of \<open>ml_model_monitor.py\<close>\<close>

text \<open>
  The libraries the monitor calls are parameters: the MD5 digest of a file's bytes, the
  CSV reader and writer of pandas (\<open>None\<close> where the reader raises), the length of a
  data frame, and the statistics of the numeric columns of two frames (\<open>None\<close> where
  they raise).
\<close>

record ('b, 'df, 'cs) libs =
  md5_hexdigest :: "'b \<Rightarrow> string"
  read_csv :: "'b \<Rightarrow> 'df option"
  to_csv :: "'df \<Rightarrow> 'b"
  df_len :: "'df \<Rightarrow> nat"
  numeric_column_stats :: "'df \<Rightarrow> 'df \<Rightarrow> 'cs option"

record container_stats =
  cpu_percentage :: string
  memory_usage :: string
  memory_percentage :: string

text \<open>The dict that \<open>_compare_csv_changes\<close> builds; \<open>container_stats\<close> is an optional key.\<close>

record 'cs change_report =
  current_rows :: nat
  previous_rows :: nat
  rows_changed :: nat
  timestamp :: string
  column_stats :: 'cs
  container_stats :: "container_stats option"

datatype log_line = LogInfo string | LogError string

text \<open>
  The world of the monitor: the bytes of the monitored file (\<open>None\<close> when it cannot be
  opened), the files of the backup directory and of the metrics directory by name,
  the names whose write fails, the answer of the container probe, whether the mail
  server accepts a message, the calls of \<open>_send_alert\<close> with subject and number of
  changed rows, the messages delivered, and the log. The three locations are taken
  to be distinct.
\<close>

record ('b, 'cs) monitor_world =
  csv_bytes :: "'b option"
  backup_files :: "(string \<times> 'b) list"
  metrics_files :: "(string \<times> 'cs change_report) list"
  name_unwritable :: "string \<Rightarrow> bool"
  docker_stats :: "container_stats option"
  smtp_accepts :: bool
  alerts_raised :: "(string \<times> nat) list"
  mails_delivered :: "(string \<times> string \<times> nat) list"
  log :: "log_line list"

record monitor =
  container_name :: string
  csv_path :: string
  check_interval :: nat
  backup_dir :: string
  metrics_dir :: string
  alert_email :: "string option"
  last_hash :: "string option"
  last_check_time :: string

text \<open>The readings of the clock during one check, in the order the code takes them.\<close>

record clock =
  backup_stamp :: string
  report_stamp :: string
  metrics_stamp :: string
  check_time :: string

text \<open>Writing a file of a directory replaces the file of that name or adds one.\<close>

fun file_write :: "(string \<times> 'a) list \<Rightarrow> string \<Rightarrow> 'a \<Rightarrow> (string \<times> 'a) list" where
  "file_write [] n c = [(n, c)]"
| "file_write ((n', c') # fs) n c = (if n' = n then (n, c) # fs else (n', c') # file_write fs n c)"

definition startswith :: "string \<Rightarrow> string \<Rightarrow> bool" where
  "startswith s p = (take (length p) s = p)"

definition get_file_hash ::
  "('b, 'df, 'cs) libs \<Rightarrow> monitor \<Rightarrow> ('b, 'cs) monitor_world \<Rightarrow> string option \<times> ('b, 'cs) monitor_world"
where
  "get_file_hash L m w =
     (case csv_bytes w of
        None \<Rightarrow> (None, w\<lparr>log := log w @ [LogError ''Error hashing file'']\<rparr>)
      | Some b \<Rightarrow> (Some (md5_hexdigest L b), w))"

definition get_container_stats ::
  "monitor \<Rightarrow> ('b, 'cs) monitor_world \<Rightarrow> container_stats option \<times> ('b, 'cs) monitor_world"
where
  "get_container_stats m w =
     (case docker_stats w of
        None \<Rightarrow> (None, w\<lparr>log := log w @ [LogError ''Error getting container stats'']\<rparr>)
      | Some s \<Rightarrow> (Some s, w))"

definition backup_current_csv ::
  "('b, 'df, 'cs) libs \<Rightarrow> string \<Rightarrow> monitor \<Rightarrow> ('b, 'cs) monitor_world \<Rightarrow>
     string option \<times> ('b, 'cs) monitor_world"
where
  "backup_current_csv L stamp m w =
     (let backup_name = basename (csv_path m) @ ''.'' @ stamp;
          backup_path = path_join (backup_dir m) backup_name
      in
        case (case csv_bytes w of None \<Rightarrow> None | Some b \<Rightarrow> read_csv L b) of
          None \<Rightarrow> (None, w\<lparr>log := log w @ [LogError ''Error creating backup'']\<rparr>)
        | Some df \<Rightarrow>
            if name_unwritable w backup_name
            then (None, w\<lparr>log := log w @ [LogError ''Error creating backup'']\<rparr>)
            else (Some backup_path,
                  w\<lparr>backup_files := file_write (backup_files w) backup_name (to_csv L df),
                    log := log w @ [LogInfo ''Created backup'']\<rparr>))"

definition compare_csv_changes ::
  "('b, 'df, 'cs) libs \<Rightarrow> string \<Rightarrow> monitor \<Rightarrow> ('b, 'cs) monitor_world \<Rightarrow> string \<Rightarrow>
     'cs change_report option \<times> ('b, 'cs) monitor_world"
where
  "compare_csv_changes L stamp m w previous_name =
     (case (case csv_bytes w of None \<Rightarrow> None | Some b \<Rightarrow> read_csv L b) of
        None \<Rightarrow> (None, w\<lparr>log := log w @ [LogError ''Error comparing CSVs'']\<rparr>)
      | Some current_df \<Rightarrow>
     (case (case map_of (backup_files w) previous_name of None \<Rightarrow> None | Some b \<Rightarrow> read_csv L b) of
        None \<Rightarrow> (None, w\<lparr>log := log w @ [LogError ''Error comparing CSVs'']\<rparr>)
      | Some previous_df \<Rightarrow>
     (case numeric_column_stats L current_df previous_df of
        None \<Rightarrow> (None, w\<lparr>log := log w @ [LogError ''Error comparing CSVs'']\<rparr>)
      | Some col_stats \<Rightarrow>
          (Some \<lparr>current_rows = df_len L current_df,
                 previous_rows = df_len L previous_df,
                 rows_changed = nat \<bar>int (df_len L current_df) - int (df_len L previous_df)\<bar>,
                 timestamp = stamp,
                 column_stats = col_stats,
                 container_stats = None\<rparr>, w))))"

definition save_metrics ::
  "string \<Rightarrow> monitor \<Rightarrow> ('b, 'cs) monitor_world \<Rightarrow> 'cs change_report \<Rightarrow> ('b, 'cs) monitor_world"
where
  "save_metrics stamp m w metrics =
     (let metrics_name = ''metrics_'' @ stamp @ ''.json''
      in if name_unwritable w metrics_name
         then w\<lparr>log := log w @ [LogError ''Error saving metrics'']\<rparr>
         else w\<lparr>metrics_files := file_write (metrics_files w) metrics_name metrics,
                log := log w @ [LogInfo ''Saved metrics'']\<rparr>)"

definition send_alert ::
  "monitor \<Rightarrow> ('b, 'cs) monitor_world \<Rightarrow> string \<Rightarrow> nat \<Rightarrow> ('b, 'cs) monitor_world"
where
  "send_alert m w subject rows =
     (let w = w\<lparr>alerts_raised := alerts_raised w @ [(subject, rows)]\<rparr>
      in case alert_email m of
           None \<Rightarrow> w
         | Some address \<Rightarrow>
             if address = [] then w
             else if smtp_accepts w
             then w\<lparr>mails_delivered := mails_delivered w @ [(address, subject, rows)],
                    log := log w @ [LogInfo ''Sent alert email'']\<rparr>
             else w\<lparr>log := log w @ [LogError ''Error sending alert'']\<rparr>)"

text \<open>The expression \<open>sorted([f for f in os.listdir(backup_dir) if f.startswith(...)])\<close>.\<close>

definition listed_backups :: "monitor \<Rightarrow> ('b, 'cs) monitor_world \<Rightarrow> string list" where
  "listed_backups m w =
     sort (filter (\<lambda>f. startswith f (basename (csv_path m))) (map fst (backup_files w)))"

definition check_for_changes ::
  "('b, 'df, 'cs) libs \<Rightarrow> clock \<Rightarrow> monitor \<Rightarrow> ('b, 'cs) monitor_world \<Rightarrow>
     monitor \<times> ('b, 'cs) monitor_world"
where
  "check_for_changes L clk m w =
     (let (current_hash, w) = get_file_hash L m w;
          (m, w) =
            (if (case current_hash of None \<Rightarrow> False | Some h \<Rightarrow> h \<noteq> []) \<and> current_hash \<noteq> last_hash m
             then
               (let w = w\<lparr>log := log w @ [LogInfo ''Changes detected'']\<rparr>;
                    (backup_path, w) = backup_current_csv L (backup_stamp clk) m w;
                    backups = listed_backups m w;
                    w =
                      (if 2 \<le> length backups then
                         (let previous_backup = backups ! (length backups - 2);
                              (changes, w) = compare_csv_changes L (report_stamp clk) m w previous_backup
                          in case changes of
                               None \<Rightarrow> w
                             | Some changes \<Rightarrow>
                                 (let (stats, w) = get_container_stats m w;
                                      changes = (case stats of None \<Rightarrow> changes
                                                 | Some s \<Rightarrow> changes\<lparr>container_stats := Some s\<rparr>);
                                      w = save_metrics (metrics_stamp clk) m w changes
                                  in if 1000 < rows_changed changes
                                     then send_alert m w ''ML Model Alert: Significant CSV Changes''
                                            (rows_changed changes)
                                     else w))
                       else w)
                in (m\<lparr>last_hash := current_hash\<rparr>, w))
             else (m, w))
      in (m\<lparr>last_check_time := check_time clk\<rparr>, w))"

text \<open>The constructor: it records the hash of the file and takes the first backup.\<close>

definition monitor_init ::
  "('b, 'df, 'cs) libs \<Rightarrow> clock \<Rightarrow> string \<Rightarrow> string \<Rightarrow> nat \<Rightarrow> string \<Rightarrow> string \<Rightarrow> string option \<Rightarrow>
     ('b, 'cs) monitor_world \<Rightarrow> monitor \<times> ('b, 'cs) monitor_world"
where
  "monitor_init L clk container csv interval backups metrics email w =
     (let m = \<lparr>container_name = container, csv_path = csv, check_interval = interval,
                backup_dir = backups, metrics_dir = metrics, alert_email = email,
                last_hash = None, last_check_time = []\<rparr>;
          (h, w) = get_file_hash L m w;
          m = m\<lparr>last_hash := h, last_check_time := check_time clk\<rparr>;
          (backup_path, w) = backup_current_csv L (backup_stamp clk) m w;
          w = w\<lparr>log := log w @ [LogInfo ''Started monitoring'', LogInfo ''Container'']\<rparr>
      in (m, w))"

section \<open>Concrete inputs\<close>

text \<open>Scenarios A and B of the specification, as raw samples.\<close>

definition scenario_A :: pydict where
  "scenario_A = [(''temperature'', PInt 95), (''vibration'', PFloat (Finite 6)),
     (''pressure'', PFloat (Finite 1)), (''rpm'', PInt 2000)]"

definition scenario_B :: pydict where
  "scenario_B = [(''temperature'', PInt 70), (''vibration'', PFloat (Finite 2)),
     (''pressure'', PFloat (Finite 1)), (''rpm'', PInt 2000)]"

text \<open>A sample that is only too cold: every other field is in its range.\<close>

definition scenario_cold :: pydict where
  "scenario_cold = [(''temperature'', PInt 20), (''vibration'', PFloat (Finite 2)),
     (''pressure'', PFloat (Finite 1)), (''rpm'', PInt 2000)]"

text \<open>A sample whose temperature is not a number; the other fields are in range.\<close>

definition scenario_nan :: pydict where
  "scenario_nan = [(''temperature'', PFloat NaN), (''vibration'', PFloat (Finite 2)),
     (''pressure'', PFloat (Finite 1)), (''rpm'', PInt 2000)]"

text \<open>A parser that accepts no string, for inputs without string fields.\<close>

definition no_strings :: "string \<Rightarrow> pyfloat option" where
  "no_strings s = None"

text \<open>One draw of the mock generator, inside the ranges of its random calls.\<close>

definition draw_0 :: draw where
  "draw_0 = \<lparr>tool_wear = 120, air_temp = 300, process_temp = 310, rotation_speed = 1000,
     torque = 5, time_now = Finite 1714564800\<rparr>"

text \<open>
  An anomalous record of machine \<open>m1\<close>, and a file system without files in which no
  write fails.
\<close>

definition alert_record :: pydict where
  "alert_record = [(''machine_id'', PStr ''m1''), (''temperature'', PFloat (Finite 95)),
     (''anomaly_detected'', PBool True)]"

definition empty_disk :: sink_world where
  "empty_disk = \<lparr>files = Map.empty, write_fails = (\<lambda>p. False), stdout = []\<rparr>"

definition plain_repr :: "pyval \<Rightarrow> string" where
  "plain_repr v = ''0''"

text \<open>A record without anomaly, and a disk on which every write fails.\<close>

definition quiet_record :: pydict where
  "quiet_record = [(''machine_id'', PStr ''m1''), (''temperature'', PFloat (Finite 70)),
     (''anomaly_detected'', PBool False)]"

definition full_disk :: sink_world where
  "full_disk = \<lparr>files = Map.empty, write_fails = (\<lambda>p. True), stdout = []\<rparr>"

text \<open>
  Scenario C of the specification. The bytes of a file are represented by a
  fingerprint and the number of rows, a data frame by its number of rows. The monitor
  starts on a file of 500 rows, with empty backup and metrics directories; later the
  file has 1600 rows.
\<close>

definition row_libs :: "(string \<times> nat, nat, unit) libs" where
  "row_libs = \<lparr>md5_hexdigest = fst, read_csv = (\<lambda>b. Some (snd b)), to_csv = (\<lambda>n. (''copy'', n)),
     df_len = (\<lambda>n. n), numeric_column_stats = (\<lambda>c p. Some ())\<rparr>"

definition fresh_world :: "(string \<times> nat, unit) monitor_world" where
  "fresh_world = \<lparr>csv_bytes = Some (''d41d8c'', 500), backup_files = [], metrics_files = [],
     name_unwritable = (\<lambda>n. False), docker_stats = None, smtp_accepts = True,
     alerts_raised = [], mails_delivered = [], log = []\<rparr>"

definition clock_0 :: clock where
  "clock_0 = \<lparr>backup_stamp = ''20240501_120000'', report_stamp = ''2024-05-01T12:00:00'',
     metrics_stamp = ''20240501_120000'', check_time = ''2024-05-01 12:00:00''\<rparr>"

definition clock_1 :: clock where
  "clock_1 = \<lparr>backup_stamp = ''20240501_120500'', report_stamp = ''2024-05-01T12:05:00'',
     metrics_stamp = ''20240501_120500'', check_time = ''2024-05-01 12:05:00''\<rparr>"

definition clock_2 :: clock where
  "clock_2 = \<lparr>backup_stamp = ''20240501_121000'', report_stamp = ''2024-05-01T12:10:00'',
     metrics_stamp = ''20240501_121000'', check_time = ''2024-05-01 12:10:00''\<rparr>"

definition started :: "monitor \<times> (string \<times> nat, unit) monitor_world" where
  "started = monitor_init row_libs clock_0 ''model'' ''app/data.csv'' 300 ''./csv_backups''
     ''./metrics'' (Some ''ops@example.com'') fresh_world"






section \<open>Facts about the float model\<close>

subsection \<open>Rounding\<close>

lemma bitlen_nonneg: "0 \<le> bitlen n"
  by (induction n rule: bitlen.induct) (subst bitlen.simps, simp)

lemma bitlen_pos: "0 < n \<Longrightarrow> 1 \<le> bitlen n"
  using bitlen_nonneg [of "n div 2"] by (subst bitlen.simps) simp

lemma bitlen_bounds:
  "0 < n \<Longrightarrow> 2 ^ nat (bitlen n - 1) \<le> n \<and> n < 2 ^ nat (bitlen n)"
proof (induction n rule: bitlen.induct)
  case (1 n)
  show ?case
  proof (cases "n = 1")
    case True
    have "bitlen 1 = 1" by (simp add: bitlen.simps)
    with True show ?thesis by simp
  next
    case False
    with "1.prems" have h: "0 < n div 2" by simp
    define k where "k = bitlen (n div 2)"
    have k1: "1 \<le> k" unfolding k_def using h by (rule bitlen_pos)
    have ih: "2 ^ nat (k - 1) \<le> n div 2 \<and> n div 2 < 2 ^ nat k"
      unfolding k_def using "1.IH" "1.prems" h by simp
    have bn: "bitlen n = 1 + k"
      unfolding k_def using "1.prems" by (subst bitlen.simps) simp
    have e1: "nat (bitlen n - 1) = Suc (nat (k - 1))" using bn k1 by simp
    have e2: "nat (bitlen n) = Suc (nat k)" using bn k1 by simp
    have d: "2 * (n div 2) \<le> n" "n \<le> 2 * (n div 2) + 1" by arith+
    from ih have "2 * 2 ^ nat (k - 1) \<le> 2 * (n div 2)" "2 * (n div 2) + 2 \<le> 2 * 2 ^ nat k"
      by simp_all
    with d have "2 * 2 ^ nat (k - 1) \<le> n \<and> n < 2 * 2 ^ nat k" by linarith
    then show ?thesis unfolding e1 e2 by simp
  qed
qed


lemma bitlen_powi:
  assumes "0 < n"
  shows "(2::rat) powi (bitlen n - 1) \<le> of_int n" "of_int n < (2::rat) powi (bitlen n)"
proof -
  from bitlen_bounds [OF assms] have b: "2 ^ nat (bitlen n - 1) \<le> n" "n < 2 ^ nat (bitlen n)"
    by simp_all
  have p: "0 \<le> bitlen n - 1" "0 \<le> bitlen n" using bitlen_pos [OF assms] by simp_all
  have "(of_int (2 ^ nat (bitlen n - 1)) :: rat) \<le> of_int n" using b(1) by (rule of_int_le_iff [THEN iffD2])
  then show "(2::rat) powi (bitlen n - 1) \<le> of_int n"
    using p(1) by (simp add: power_int_def)
  have "(of_int n :: rat) < of_int (2 ^ nat (bitlen n))" using b(2) by (rule of_int_less_iff [THEN iffD2])
  then show "of_int n < (2::rat) powi (bitlen n)"
    using p(2) by (simp add: power_int_def)
qed

lemma powi2_pos: "0 < (2::rat) powi e"
  by (simp add: zero_less_power_int)

lemma powi2_mono: "a \<le> b \<Longrightarrow> (2::rat) powi a \<le> 2 powi b"
  by (rule power_int_increasing) simp_all

lemma powi2_less_iff: "(2::rat) powi a < 2 powi b \<longleftrightarrow> a < b"
proof
  assume l: "(2::rat) powi a < 2 powi b"
  show "a < b"
  proof (rule ccontr)
    assume "\<not> a < b"
    then have "(2::rat) powi b \<le> 2 powi a" by (intro powi2_mono) simp
    with l show False by simp
  qed
next
  assume "a < b"
  then show "(2::rat) powi a < 2 powi b" by (rule power_int_strict_increasing) simp
qed

lemma powi2_le_iff: "(2::rat) powi a \<le> 2 powi b \<longleftrightarrow> a \<le> b"
  using powi2_less_iff [of b a] by (auto simp: not_less [symmetric])

lemma powi2_add: "(2::rat) powi (a + b) = 2 powi a * 2 powi b"
  by (simp add: power_int_add)

lemma powi2_diff: "(2::rat) powi (a - b) = 2 powi a / 2 powi b"
  by (simp add: power_int_diff)

lemma ilog2_bounds:
  assumes "0 < q"
  shows "2 powi (ilog2 q) \<le> q" "q < 2 powi (ilog2 q + 1)"
proof -
  obtain a b where ab: "quotient_of q = (a, b)" by (cases "quotient_of q")
  have bpos: "0 < b" using ab by (rule quotient_of_denom_pos)
  have q: "q = of_int a / of_int b" using ab by (rule quotient_of_div)
  have apos: "0 < a" using assms bpos q by (simp add: zero_less_divide_iff)
  define d where "d = bitlen a - bitlen b"
  have il: "ilog2 q = (if 2 powi d \<le> q then d else d - 1)"
    by (simp add: ilog2_def ab d_def Let_def)
  have lo: "2 powi (d - 1) \<le> q"
  proof -
    have "(2::rat) powi (d - 1) = 2 powi (bitlen a - 1) / 2 powi (bitlen b)"
      unfolding d_def by (simp flip: powi2_diff) (simp add: algebra_simps)
    also have "\<dots> \<le> (of_int a :: rat) / of_int b"
      using bitlen_powi [OF apos] bitlen_powi [OF bpos] apos bpos
      by (intro frac_le) (simp_all add: powi2_pos less_imp_le)
    finally show ?thesis using q by simp
  qed
  have hi: "q < 2 powi (d + 1)"
  proof -
    have "(of_int a :: rat) / of_int b < 2 powi (bitlen a) / 2 powi (bitlen b - 1)"
      using bitlen_powi [OF apos] bitlen_powi [OF bpos] apos bpos
      by (intro frac_less) (simp_all add: powi2_pos less_imp_le)
    also have "\<dots> = 2 powi (d + 1)"
      unfolding d_def by (simp flip: powi2_diff) (simp add: algebra_simps)
    finally show ?thesis using q by simp
  qed
  show "2 powi (ilog2 q) \<le> q" using il lo by (simp split: if_splits)
  show "q < 2 powi (ilog2 q + 1)" using il hi by (auto split: if_splits)
qed

lemma ilog2_unique:
  assumes "2 powi e \<le> q" "q < 2 powi (e + 1)"
  shows "ilog2 q = e"
proof -
  have qpos: "0 < q" by (rule less_le_trans [OF powi2_pos assms(1)])
  note b = ilog2_bounds [OF qpos]
  have "2 powi e < (2::rat) powi (ilog2 q + 1)" using assms(1) b(2) by simp
  then have 1: "e < ilog2 q + 1" by (simp only: powi2_less_iff)
  have "2 powi (ilog2 q) < (2::rat) powi (e + 1)" using assms(2) b(1) by simp
  then have 2: "ilog2 q < e + 1" by (simp only: powi2_less_iff)
  from 1 2 show ?thesis by simp
qed


lemma round_half_even_of_int: "round_half_even (of_int k) = k"
  by (simp add: round_half_even_def)

lemma round_half_even_error: "\<bar>of_int (round_half_even x) - x\<bar> \<le> 1 / 2"
proof -
  have "of_int \<lfloor>x\<rfloor> \<le> x" "x < of_int \<lfloor>x\<rfloor> + 1" by linarith+
  then show ?thesis
    by (auto simp: round_half_even_def Let_def)
qed

lemma b64_exact:
  assumes "is_b64 q"
  shows "b64 q = Finite q"
proof (cases "q = 0")
  case True
  then show ?thesis by (simp add: b64_def)
next
  case False
  from assms obtain m e where
    q: "q = of_int m * 2 powi e" and m: "\<bar>m\<bar> < 2 ^ 53" and e: "- 1074 \<le> e" "e \<le> 971"
    unfolding is_b64_def by blast
  define a where "a = \<bar>q\<bar>"
  have a: "a = of_int \<bar>m\<bar> * 2 powi e"
    unfolding a_def q by (simp add: abs_mult power_int_abs)
  have apos: "0 < a" using False by (simp add: a_def)
  have "(of_int \<bar>m\<bar> :: rat) < of_int (2 ^ 53)" using m by (rule of_int_less_iff [THEN iffD2])
  then have "(of_int \<bar>m\<bar> :: rat) < 2 powi 53" by simp
  then have "a < 2 powi 53 * 2 powi e"
    unfolding a by (rule mult_strict_right_mono) (rule powi2_pos)
  then have alt: "a < 2 powi (e + 53)" by (simp add: powi2_add mult.commute)
  define E where "E = max (ilog2 a) (- 1022)"
  have "2 powi (ilog2 a) < (2::rat) powi (e + 53)"
    using ilog2_bounds(1) [OF apos] alt by simp
  then have "ilog2 a < e + 53" by (simp only: powi2_less_iff)
  then have E: "E \<le> e + 52" unfolding E_def using e by simp
  define s where "s = e - E + 52"
  have s: "0 \<le> s" unfolding s_def using E by simp
  define u :: rat where "u = 2 powi (E - 52)"
  have upos: "0 < u" unfolding u_def by (rule powi2_pos)
  have "2 powi e = (2::rat) powi s * u"
    unfolding u_def s_def by (simp flip: powi2_add)
  then have "a / u = of_int \<bar>m\<bar> * 2 powi s" using upos unfolding a by simp
  also have "\<dots> = of_int (\<bar>m\<bar> * 2 ^ nat s)" using s by (simp add: power_int_def)
  finally have au: "a / u = of_int (\<bar>m\<bar> * 2 ^ nat s)" .
  have "of_int (round_half_even (a / u)) * u = a / u * u"
    by (simp only: au round_half_even_of_int)
  also have "\<dots> = a" using upos by simp
  finally have r: "of_int (round_half_even (a / u)) * u = a" .
  have "(2::rat) powi (e + 53) \<le> 2 powi 1024" using e by (intro powi2_mono) simp
  with alt have nov: "\<not> 2 powi 1024 \<le> a" by simp
  have "b64 q = Finite (if 0 < q then a else - a)"
    using False r nov
    by (simp only: b64_def Let_def a_def [symmetric] E_def [symmetric] u_def [symmetric] if_False)
  also have "(if 0 < q then a else - a) = q" unfolding a_def by simp
  finally show ?thesis .
qed

lemma is_b64_of_int: "\<bar>i\<bar> < 2 ^ 53 \<Longrightarrow> is_b64 (of_int i)"
  unfolding is_b64_def by (rule exI [of _ i], rule exI [of _ 0]) simp


lemma powi2_split: "(2::rat) powi y = 2 ^ k * 2 powi (y - int k)"
  using powi2_add [of "int k" "y - int k"] by simp

lemma is_b64_0: "is_b64 0"
  using is_b64_of_int [of 0] by simp

lemma is_b64_uminus: "is_b64 q \<Longrightarrow> is_b64 (- q)"
proof -
  assume "is_b64 q"
  then obtain m e where "q = of_int m * 2 powi e" "\<bar>m\<bar> < 2 ^ 53" "- 1074 \<le> e" "e \<le> 971"
    unfolding is_b64_def by blast
  then have "- q = of_int (- m) * 2 powi e \<and> \<bar>- m\<bar> < 2 ^ 53 \<and> - 1074 \<le> e \<and> e \<le> 971"
    by simp
  then show ?thesis unfolding is_b64_def by blast
qed

lemma b64_is_b64:
  assumes "b64 q = Finite r"
  shows "is_b64 r"
proof (cases "q = 0")
  case True
  with assms show ?thesis by (simp add: b64_def is_b64_0)
next
  case False
  define a where "a = \<bar>q\<bar>"
  define E where "E = max (ilog2 a) (- 1022)"
  define u :: rat where "u = 2 powi (E - 52)"
  define n where "n = round_half_even (a / u)"
  define R where "R = of_int n * u"
  have apos: "0 < a" using False by (simp add: a_def)
  have upos: "0 < u" unfolding u_def by (rule powi2_pos)
  have b: "b64 q = (if 2 powi 1024 \<le> R then (if 0 < q then PosInf else NegInf)
                    else Finite (if 0 < q then R else - R))"
    using False
    by (simp only: b64_def Let_def a_def [symmetric] E_def [symmetric] u_def [symmetric]
        n_def [symmetric] R_def [symmetric] if_False)
  from assms b have nov: "R < 2 powi 1024" and r: "r = (if 0 < q then R else - R)"
    by (auto split: if_splits)
  have err: "\<bar>of_int n - a / u\<bar> \<le> 1 / 2" unfolding n_def by (rule round_half_even_error)
  define x where "x = a / u"
  have lo: "x - 1 / 2 \<le> of_int n" and hi: "of_int n \<le> x + 1 / 2"
    using err unfolding x_def by linarith+
  have EL: "ilog2 a \<le> E" "- 1022 \<le> E" unfolding E_def by simp_all
  have "a < 2 powi (ilog2 a + 1)" using apos by (rule ilog2_bounds)
  also have "\<dots> \<le> 2 powi (E + 1)" using EL by (intro powi2_mono) simp
  also have "\<dots> = 2 powi 53 * u" unfolding u_def using powi2_split [of "E + 1" 53] by simp
  finally have "a / u < 2 powi 53" using upos by (simp add: pos_divide_less_eq)
  then have "x < of_int (2 ^ 53)" unfolding x_def by simp
  with hi have "(of_int n :: rat) < of_int (2 ^ 53) + 1" by linarith
  then have "(of_int n :: rat) < of_int (2 ^ 53 + 1)" by simp
  then have "n < 2 ^ 53 + 1" by (simp only: of_int_less_iff)
  then have nle: "n \<le> 2 ^ 53" by simp
  have "0 < x" using apos upos unfolding x_def by simp
  with lo have "(of_int (- 1) :: rat) < of_int n" by simp
  then have "- 1 < n" by (simp only: of_int_less_iff)
  then have n0: "0 \<le> n" by simp
  have big: "2 ^ 52 \<le> n" if "- 1022 < E"
  proof -
    from that have "E = ilog2 a" unfolding E_def by simp
    then have "2 powi E \<le> a" using ilog2_bounds(1) [OF apos] by simp
    moreover have "(2::rat) powi E = 2 powi 52 * u" unfolding u_def using powi2_split [of E 52] by simp
    ultimately have "2 powi 52 \<le> a / u" using upos by (simp add: pos_le_divide_eq)
    then have "of_int (2 ^ 52) \<le> x" unfolding x_def by simp
    with lo have "(of_int (2 ^ 52 - 1) :: rat) < of_int n" by simp
    then have "2 ^ 52 - 1 < n" by (simp only: of_int_less_iff)
    then show ?thesis by simp
  qed
  have E1023: "E \<le> 1023"
  proof (cases "- 1022 < E")
    case True
    have "(2::rat) powi E = of_int (2 ^ 52) * u" unfolding u_def using powi2_split [of E 52] by simp
    also have "\<dots> \<le> of_int n * u"
      using big [OF True] upos by (intro mult_right_mono of_int_le_iff [THEN iffD2]) simp_all
    also have "\<dots> < 2 powi 1024" using nov unfolding R_def .
    finally have "E < 1024" by (simp only: powi2_less_iff)
    then show ?thesis by simp
  next
    case False
    then show ?thesis by simp
  qed
  have "is_b64 R"
  proof (cases "n = 2 ^ 53")
    case True
    have "R = 2 powi (E + 1)" unfolding R_def True u_def using powi2_split [of "E + 1" 53] by simp
    with nov have "(2::rat) powi (E + 1) < 2 powi 1024" by simp
    then have "E + 1 < 1024" by (simp only: powi2_less_iff)
    moreover have "R = of_int (2 ^ 52) * 2 powi (E - 51)"
      unfolding R_def True u_def using powi2_split [of "E - 51" 1] by simp
    ultimately have "R = of_int (2 ^ 52) * 2 powi (E - 51) \<and> \<bar>2 ^ 52 :: int\<bar> < 2 ^ 53
        \<and> - 1074 \<le> E - 51 \<and> E - 51 \<le> 971"
      using EL by simp
    then show ?thesis unfolding is_b64_def by blast
  next
    case False
    with nle n0 have "\<bar>n\<bar> < 2 ^ 53" by simp
    then have "R = of_int n * 2 powi (E - 52) \<and> \<bar>n\<bar> < 2 ^ 53 \<and> - 1074 \<le> E - 52 \<and> E - 52 \<le> 971"
      using EL E1023 unfolding R_def u_def by simp
    then show ?thesis unfolding is_b64_def by blast
  qed
  then show ?thesis unfolding r by (simp add: is_b64_uminus)
qed

lemma round_half_even_eqI:
  assumes "\<bar>x - of_int n\<bar> < 1 / 2"
  shows "round_half_even x = n"
proof -
  define f where "f = \<lfloor>x\<rfloor>"
  have f: "of_int f \<le> x" "x < of_int f + 1" unfolding f_def by linarith+
  from assms have n: "of_int n - 1 / 2 < x" "x < of_int n + 1 / 2" by linarith+
  have c: "round_half_even x = (if x - of_int f < 1 / 2 then f else f + 1)"
  proof -
    have "x - of_int f \<noteq> 1 / 2"
    proof
      assume h: "x - of_int f = 1 / 2"
      with n have "(of_int n :: rat) - 1 < of_int f" "(of_int f :: rat) < of_int n" by linarith+
      then have "(of_int (n - 1) :: rat) < of_int f" "(of_int f :: rat) < of_int n" by simp_all
      then have "n - 1 < f" "f < n" by (simp_all only: of_int_less_iff)
      then show False by simp
    qed
    then show ?thesis by (auto simp: round_half_even_def Let_def f_def)
  qed
  show ?thesis
  proof (cases "x - of_int f < 1 / 2")
    case True
    with f n have "(of_int (n - 1) :: rat) < of_int f" "(of_int f :: rat) < of_int (n + 1)"
      by simp_all
    then have "n - 1 < f" "f < n + 1" by (simp_all only: of_int_less_iff)
    with c True show ?thesis by simp
  next
    case False
    with f n have "(of_int n :: rat) < of_int (f + 2)" "(of_int f :: rat) < of_int n"
      by simp_all
    then have "n < f + 2" "f < n" by (simp_all only: of_int_less_iff)
    with c False show ?thesis by simp
  qed
qed

lemma round_half_even_tie:
  assumes "x = of_int f + 1 / 2"
  shows "round_half_even x = (if even f then f else f + 1)"
proof -
  have "\<lfloor>x\<rfloor> = f" unfolding assms by (rule floor_unique) simp_all
  then show ?thesis unfolding round_half_even_def Let_def by (simp add: assms)
qed

lemma b64_rounded:
  assumes "2 powi e \<le> q" "q < 2 powi (e + 1)" "- 1022 \<le> e" "e \<le> 1022"
    and rn: "round_half_even (q / 2 powi (e - 52)) = n"
  shows "b64 q = Finite (of_int n * 2 powi (e - 52))"
proof -
  have qpos: "0 < q" by (rule less_le_trans [OF powi2_pos assms(1)])
  have il: "ilog2 q = e" using assms(1,2) by (rule ilog2_unique)
  define u :: rat where "u = 2 powi (e - 52)"
  have upos: "0 < u" unfolding u_def by (rule powi2_pos)
  have "\<bar>of_int n - q / u\<bar> \<le> 1 / 2"
    using round_half_even_error [of "q / u"] rn by (simp add: u_def)
  then have "of_int n \<le> q / u + 1 / 2" by linarith
  moreover have "q / u < 2 powi 53"
  proof -
    have "2 powi (e + 1) = 2 powi 53 * u" unfolding u_def using powi2_split [of "e + 1" 53] by simp
    with assms(2) upos show ?thesis by (simp add: pos_divide_less_eq)
  qed
  ultimately have "(of_int n :: rat) < 2 powi 53 + 1" by linarith
  then have "(of_int n :: rat) < of_int (2 ^ 53 + 1)" by simp
  then have "n < 2 ^ 53 + 1" by (simp only: of_int_less_iff)
  then have "n \<le> 2 ^ 53" by simp
  then have "(of_int n :: rat) \<le> of_int (2 ^ 53)" by (simp only: of_int_le_iff)
  then have "of_int n * u \<le> 2 powi 53 * u" using upos by (intro mult_right_mono) simp_all
  also have "\<dots> = 2 powi (e + 1)" unfolding u_def using powi2_split [of "e + 1" 53] by simp
  also have "\<dots> < 2 powi 1024" using assms(4) by (simp only: powi2_less_iff)
  finally have nov: "\<not> 2 powi 1024 \<le> of_int n * u" by simp
  have m: "max e (- 1022) = e" using assms(3) by simp
  show ?thesis
    using qpos nov rn
    by (simp add: b64_def Let_def il m u_def [symmetric] del: power_int_numeral)
qed

lemma b64_normal:
  assumes "2 powi e \<le> q" "q < 2 powi (e + 1)" "- 1022 \<le> e" "e \<le> 1022"
    and "\<bar>q / 2 powi (e - 52) - of_int n\<bar> < 1 / 2"
  shows "b64 q = Finite (of_int n * 2 powi (e - 52))"
  using assms(1-4) round_half_even_eqI [OF assms(5)] by (rule b64_rounded)

lemma b64_tie:
  assumes "2 powi e \<le> q" "q < 2 powi (e + 1)" "- 1022 \<le> e" "e \<le> 1022"
    and "q / 2 powi (e - 52) = of_int f + 1 / 2"
  shows "b64 q = Finite (of_int (if even f then f else f + 1) * 2 powi (e - 52))"
  using assms(1-4) round_half_even_tie [OF assms(5)] by (rule b64_rounded)

lemma b64_rel_error:
  assumes "1 \<le> q" "q \<le> 2 ^ 100"
  shows "\<exists>r. b64 q = Finite r \<and> q * (1 - 1 / 2 ^ 53) \<le> r \<and> r \<le> q * (1 + 1 / 2 ^ 53)"
proof -
  have qpos: "0 < q" using assms(1) by simp
  define e where "e = ilog2 q"
  note b = ilog2_bounds [OF qpos, folded e_def]
  have "(2::rat) powi 0 < 2 powi (e + 1)" using assms(1) b(2) by simp
  then have e0: "0 \<le> e" by (simp only: powi2_less_iff)
  have "(2::rat) powi e < 2 powi 101" using assms(2) b(1) by simp
  then have e1: "e \<le> 100" by (simp only: powi2_less_iff)
  define u :: rat where "u = 2 powi (e - 52)"
  define n where "n = round_half_even (q / u)"
  have upos: "0 < u" unfolding u_def by (rule powi2_pos)
  have r: "b64 q = Finite (of_int n * u)"
    unfolding u_def n_def using b e0 e1 by (intro b64_rounded) simp_all
  have "\<bar>of_int n - q / u\<bar> \<le> 1 / 2" unfolding n_def by (rule round_half_even_error)
  then have "\<bar>of_int n - q / u\<bar> * u \<le> 1 / 2 * u" using upos by (intro mult_right_mono) simp_all
  moreover have "(of_int n - q / u) * u = of_int n * u - q"
    using upos by (simp add: left_diff_distrib)
  then have "\<bar>of_int n - q / u\<bar> * u = \<bar>of_int n * u - q\<bar>"
    using upos abs_mult [of "of_int n - q / u" u] by simp
  ultimately have err: "\<bar>of_int n * u - q\<bar> \<le> u / 2" by simp
  have "2 powi e = 2 ^ 52 * u" unfolding u_def using powi2_split [of e 52] by simp
  with b(1) have "u \<le> q / 2 ^ 52" by (simp add: pos_le_divide_eq mult.commute)
  then have "u / 2 \<le> q / 2 ^ 53" by simp
  with err have "\<bar>of_int n * u - q\<bar> \<le> q / 2 ^ 53" by linarith
  then have "q - q / 2 ^ 53 \<le> of_int n * u \<and> of_int n * u \<le> q + q / 2 ^ 53" by linarith
  then have "q * (1 - 1 / 2 ^ 53) \<le> of_int n * u \<and> of_int n * u \<le> q * (1 + 1 / 2 ^ 53)"
    by (simp add: algebra_simps)
  with r show ?thesis by blast
qed

subsection \<open>The float literals of the source and their sums\<close>

lemma lit_1_10: "lit (1 / 10) = Finite (3602879701896397 / 36028797018963968)"
  unfolding lit_def by (subst b64_normal [where e = "- 4" and n = 7205759403792794]) simp_all

lemma lit_2_10: "lit (1 / 5) = Finite (3602879701896397 / 18014398509481984)"
  unfolding lit_def by (subst b64_normal [where e = "- 3" and n = 7205759403792794]) simp_all

lemma lit_3_10: "lit (3 / 10) = Finite (5404319552844595 / 18014398509481984)"
  unfolding lit_def by (subst b64_normal [where e = "- 2" and n = 5404319552844595]) simp_all

lemma lit_4_10: "lit (2 / 5) = Finite (3602879701896397 / 9007199254740992)"
  unfolding lit_def by (subst b64_normal [where e = "- 2" and n = 7205759403792794]) simp_all

lemma lit_8_10: "lit (4 / 5) = Finite (3602879701896397 / 4503599627370496)"
  unfolding lit_def by (subst b64_normal [where e = "- 1" and n = 7205759403792794]) simp_all

lemma lit_12_10: "lit (6 / 5) = Finite (5404319552844595 / 4503599627370496)"
  unfolding lit_def by (subst b64_normal [where e = "0" and n = 5404319552844595]) simp_all

lemma lit_95_100: "lit (19 / 20) = Finite (4278419646001971 / 4503599627370496)"
  unfolding lit_def by (subst b64_normal [where e = "- 1" and n = 8556839292003942]) simp_all

lemma lit_314159: "lit (314159 / 100000) = Finite (3537115888337719 / 1125899906842624)"
  unfolding lit_def by (subst b64_normal [where e = "1" and n = 7074231776675438]) simp_all

lemma lit_7_10: "lit (7 / 10) = Finite (3152519739159347 / 4503599627370496)"
  unfolding lit_def by (subst b64_normal [where e = "- 1" and n = 6305039478318694]) simp_all

lemma lit_5: "lit 5 = Finite 5"
  unfolding lit_def by (subst b64_normal [where e = 2 and n = 5629499534213120]) simp_all

lemma b64_sum_1: "b64 (3602879701896397 / 36028797018963968) = Finite (3602879701896397 / 36028797018963968)"
  by (subst b64_normal [where e = "- 4" and n = 7205759403792794]) simp_all

lemma b64_sum_2: "b64 (3602879701896397 / 18014398509481984) = Finite (3602879701896397 / 18014398509481984)"
  by (subst b64_normal [where e = "- 3" and n = 7205759403792794]) simp_all

lemma b64_sum_3: "b64 (5404319552844595 / 18014398509481984) = Finite (5404319552844595 / 18014398509481984)"
  by (subst b64_normal [where e = "- 2" and n = 5404319552844595]) simp_all

lemma b64_sum_4: "b64 (10808639105689191 / 36028797018963968) = Finite (1351079888211149 / 4503599627370496)"
  by (subst b64_tie [where e = "- 2" and f = 5404319552844595]) simp_all

lemma b64_sum_5: "b64 (14411518807585587 / 36028797018963968) = Finite (3602879701896397 / 9007199254740992)"
  by (subst b64_tie [where e = "- 2" and f = 7205759403792793]) simp_all

lemma b64_sum_6: "b64 (3602879701896397 / 9007199254740992) = Finite (3602879701896397 / 9007199254740992)"
  by (subst b64_normal [where e = "- 2" and n = 7205759403792794]) simp_all

lemma b64_sum_7: "b64 (1 / 2) = Finite (1 / 2)"
  by (subst b64_normal [where e = "- 1" and n = 4503599627370496]) simp_all

lemma b64_sum_8: "b64 (18014398509481985 / 36028797018963968) = Finite (1 / 2)"
  by (subst b64_normal [where e = "- 1" and n = 4503599627370496]) simp_all

lemma b64_sum_9: "b64 (21617278211378381 / 36028797018963968) = Finite (5404319552844595 / 9007199254740992)"
  by (subst b64_normal [where e = "- 1" and n = 5404319552844595]) simp_all

lemma b64_sum_10: "b64 (10808639105689191 / 18014398509481984) = Finite (1351079888211149 / 2251799813685248)"
  by (subst b64_tie [where e = "- 1" and f = 5404319552844595]) simp_all

lemma b64_sum_11: "b64 (12610078956637389 / 18014398509481984) = Finite (3152519739159347 / 4503599627370496)"
  by (subst b64_tie [where e = "- 1" and f = 6305039478318694]) simp_all

lemma b64_sum_12: "b64 (25220157913274781 / 36028797018963968) = Finite (6305039478318695 / 9007199254740992)"
  by (subst b64_normal [where e = "- 1" and n = 6305039478318695]) simp_all

lemma b64_sum_13: "b64 (28823037615171173 / 36028797018963968) = Finite (7205759403792793 / 9007199254740992)"
  by (subst b64_normal [where e = "- 1" and n = 7205759403792793]) simp_all

lemma b64_sum_14: "b64 (16212958658533785 / 18014398509481984) = Finite (2026619832316723 / 2251799813685248)"
  by (subst b64_tie [where e = "- 1" and f = 8106479329266892]) simp_all

lemma b64_sum_15: "b64 (36028797018963965 / 36028797018963968) = Finite (9007199254740991 / 9007199254740992)"
  by (subst b64_normal [where e = "- 1" and n = 9007199254740991]) simp_all

lemmas b64_sums = b64_sum_1 b64_sum_2 b64_sum_3 b64_sum_4 b64_sum_5 b64_sum_6 b64_sum_7 b64_sum_8 b64_sum_9 b64_sum_10 b64_sum_11 b64_sum_12 b64_sum_13 b64_sum_14 b64_sum_15

subsection \<open>Comparing a binary64 number with a rounded literal\<close>

lemma b64_grid:
  assumes "is_b64 q" "2 powi L \<le> \<bar>q\<bar>"
  shows "\<exists>k. q = of_int k * 2 powi (L - 52)"
proof -
  from assms(1) obtain m e where
    q: "q = of_int m * 2 powi e" and m: "\<bar>m\<bar> < 2 ^ 53"
    unfolding is_b64_def by blast
  have "\<bar>q\<bar> = of_int \<bar>m\<bar> * 2 powi e" unfolding q by (simp add: abs_mult power_int_abs)
  moreover have "(of_int \<bar>m\<bar> :: rat) < of_int (2 ^ 53)" using m by (rule of_int_less_iff [THEN iffD2])
  then have "(of_int \<bar>m\<bar> :: rat) * 2 powi e < 2 powi 53 * 2 powi e"
    by (intro mult_strict_right_mono powi2_pos) simp
  ultimately have "\<bar>q\<bar> < 2 powi (e + 53)" by (simp add: powi2_add mult.commute)
  with assms(2) have "(2::rat) powi L < 2 powi (e + 53)" by simp
  then have "L < e + 53" by (simp only: powi2_less_iff)
  then have s: "0 \<le> e - L + 52" by simp
  have "(2::rat) powi e = 2 powi (e - L + 52) * 2 powi (L - 52)"
    by (simp flip: powi2_add)
  also have "(2::rat) powi (e - L + 52) = of_int (2 ^ nat (e - L + 52))"
    using s by (simp add: power_int_def)
  finally have "q = of_int (m * 2 ^ nat (e - L + 52)) * 2 powi (L - 52)"
    unfolding q by simp
  then show ?thesis by blast
qed

lemma below_lit_1_10:
  assumes "is_b64 q"
  shows "q < 3602879701896397 / 36028797018963968 \<longleftrightarrow> q < 1 / 10"
proof
  assume "q < 1 / 10" then show "q < 3602879701896397 / 36028797018963968" by simp
next
  assume h: "q < 3602879701896397 / 36028797018963968"
  show "q < 1 / 10"
  proof (rule ccontr)
    assume "\<not> q < 1 / 10"
    then have ge: "1 / 10 \<le> q" by simp
    then have "2 powi (- 4) \<le> \<bar>q\<bar>" by simp
    from b64_grid [OF assms this] obtain k where k: "q = of_int k * 2 powi (- 4 - 52)" by blast
    then have q: "q = of_int k / 72057594037927936" by simp
    from h have "(of_int k :: rat) < of_int 7205759403792794" unfolding q by simp
    then have "k < 7205759403792794" by (simp only: of_int_less_iff)
    then have "k \<le> 7205759403792793" by simp
    then have "(of_int k :: rat) \<le> of_int 7205759403792793" by (simp only: of_int_le_iff)
    then have "q < 1 / 10" unfolding q by simp
    with ge show False by simp
  qed
qed

lemma below_lit_8_10:
  assumes "is_b64 q"
  shows "q < 3602879701896397 / 4503599627370496 \<longleftrightarrow> q < 4 / 5"
proof
  assume "q < 4 / 5" then show "q < 3602879701896397 / 4503599627370496" by simp
next
  assume h: "q < 3602879701896397 / 4503599627370496"
  show "q < 4 / 5"
  proof (rule ccontr)
    assume "\<not> q < 4 / 5"
    then have ge: "4 / 5 \<le> q" by simp
    then have "2 powi (- 1) \<le> \<bar>q\<bar>" by simp
    from b64_grid [OF assms this] obtain k where k: "q = of_int k * 2 powi (- 1 - 52)" by blast
    then have q: "q = of_int k / 9007199254740992" by simp
    from h have "(of_int k :: rat) < of_int 7205759403792794" unfolding q by simp
    then have "k < 7205759403792794" by (simp only: of_int_less_iff)
    then have "k \<le> 7205759403792793" by simp
    then have "(of_int k :: rat) \<le> of_int 7205759403792793" by (simp only: of_int_le_iff)
    then have "q < 4 / 5" unfolding q by simp
    with ge show False by simp
  qed
qed

lemma above_lit_12_10:
  assumes "is_b64 q"
  shows "5404319552844595 / 4503599627370496 < q \<longleftrightarrow> 6 / 5 < q"
proof
  assume "6 / 5 < q" then show "5404319552844595 / 4503599627370496 < q" by simp
next
  assume h: "5404319552844595 / 4503599627370496 < q"
  show "6 / 5 < q"
  proof (rule ccontr)
    assume "\<not> 6 / 5 < q"
    then have le: "q \<le> 6 / 5" by simp
    from h have "2 powi 0 \<le> \<bar>q\<bar>" by simp
    from b64_grid [OF assms this] obtain k where k: "q = of_int k * 2 powi (0 - 52)" by blast
    then have q: "q = of_int k / 4503599627370496" by simp
    from h have "(of_int 5404319552844595 :: rat) < of_int k" unfolding q by simp
    then have "5404319552844595 < k" by (simp only: of_int_less_iff)
    then have "5404319552844596 \<le> k" by simp
    then have "(of_int 5404319552844596 :: rat) \<le> of_int k" by (simp only: of_int_le_iff)
    then have "6 / 5 < q" unfolding q by simp
    with le show False by simp
  qed
qed

lemma py_lt_lit_1_10: "is_double x \<Longrightarrow> py_lt x (lit (1 / 10)) = below (1 / 10) x"
proof (cases x)
  case (Finite q)
  assume "is_double x"
  with Finite below_lit_1_10 [of q] show ?thesis by (simp add: lit_1_10 below_def)
qed (simp_all add: lit_1_10 below_def)

lemma py_lt_lit_8_10: "is_double x \<Longrightarrow> py_lt x (lit (4 / 5)) = below (4 / 5) x"
proof (cases x)
  case (Finite q)
  assume "is_double x"
  with Finite below_lit_8_10 [of q] show ?thesis by (simp add: lit_8_10 below_def)
qed (simp_all add: lit_8_10 below_def)

lemma py_gt_lit_12_10: "is_double x \<Longrightarrow> py_gt x (lit (6 / 5)) = above (6 / 5) x"
proof (cases x)
  case (Finite q)
  assume "is_double x"
  with Finite above_lit_12_10 [of q] show ?thesis by (simp add: lit_12_10 above_def py_gt_def)
qed (simp_all add: lit_12_10 above_def py_gt_def)

lemma float_of_int_exact: "\<bar>i\<bar> < 2 ^ 53 \<Longrightarrow> float_of_int i = Inr (Finite (of_int i))"
  by (simp add: float_of_int_def b64_exact is_b64_of_int)

lemma float_of_int_double: "float_of_int i = Inr x \<Longrightarrow> is_double x"
proof (cases "b64 (of_int i)")
  case (Finite r)
  assume "float_of_int i = Inr x"
  with Finite have "x = Finite r" by (simp add: float_of_int_def)
  with b64_is_b64 [OF Finite] show ?thesis by simp
qed (simp_all add: float_of_int_def)

lemma wf_floats_scored_field:
  assumes "wf_floats P data" "scored_field P data k = Inr x"
  shows "is_double x"
proof (cases "dict_get data k (PInt 0)")
  case (PFloat y)
  then have "map_of data k = Some (PFloat y)"
    by (auto simp: dict_get_def split: option.splits)
  then have "(k, PFloat y) \<in> set data" by (rule map_of_SomeD)
  with assms PFloat show ?thesis by (auto simp: wf_floats_def scored_field_def)
next
  case (PInt i)
  with assms(2) show ?thesis by (auto simp: scored_field_def dest: float_of_int_double)
next
  case (PBool b)
  with assms(2) is_b64_of_int [of 0] is_b64_of_int [of 1] show ?thesis
    by (auto simp: scored_field_def)
next
  case (PStr s)
  with assms show ?thesis by (auto simp: scored_field_def wf_floats_def split: option.splits)
next
  case PNone
  with assms(2) show ?thesis by (simp add: scored_field_def)
qed

lemma fdiv_rpm_ok: "\<exists>x. fdiv v (py_max m (Finite 1)) = Inr x"
  by (cases v; cases m) (auto simp: py_max_def py_gt_def)

lemma fdiv_pressure_ok: "\<exists>x. fdiv t (py_max p (lit (1 / 10))) = Inr x"
  by (cases t; cases p) (auto simp: py_max_def py_gt_def lit_1_10)

section \<open>Facts about the scorer\<close>

lemma scored_valuesD:
  assumes "scored_values P data = Some (t, v, p, m)"
  shows "py_float P (dict_get data ''temperature'' (PInt 0)) = Inr t"
    "py_float P (dict_get data ''vibration'' (PInt 0)) = Inr v"
    "py_float P (dict_get data ''pressure'' (PInt 0)) = Inr p"
    "py_float P (dict_get data ''rpm'' (PInt 0)) = Inr m"
  using assms by (auto simp: scored_values_def scored_field_def split: sum.splits)

lemma map_of_dict_set: "map_of (dict_set d k v) k' = (if k' = k then Some v else map_of d k')"
  by (induction d k v rule: dict_set.induct) auto

lemma psd_result:
  assumes sv: "scored_values P data = Some (t, v, p, m)"
  shows "\<exists>r. process_sensor_data P now data = Inr r \<and>
      map_of r ''temp_anomaly'' = Some (PBool (py_lt t (Finite 50) \<or> py_gt t (Finite 90))) \<and>
      map_of r ''vibration_anomaly'' = Some (PBool (py_lt v (lit (1 / 10)) \<or> py_gt v (lit 5))) \<and>
      map_of r ''pressure_anomaly'' = Some (PBool (py_lt p (lit (4 / 5)) \<or> py_gt p (lit (6 / 5)))) \<and>
      map_of r ''rpm_anomaly'' = Some (PBool (py_lt m (Finite 1000) \<or> py_gt m (Finite 3000))) \<and>
      map_of r ''anomaly_detected'' = Some (PBool
         ((py_lt t (Finite 50) \<or> py_gt t (Finite 90)) \<or> (py_lt v (lit (1 / 10)) \<or> py_gt v (lit 5)) \<or>
          (py_lt p (lit (4 / 5)) \<or> py_gt p (lit (6 / 5))) \<or> (py_lt m (Finite 1000) \<or> py_gt m (Finite 3000)))) \<and>
      (if (py_lt t (Finite 50) \<or> py_gt t (Finite 90)) \<or> (py_lt v (lit (1 / 10)) \<or> py_gt v (lit 5)) \<or>
          (py_lt p (lit (4 / 5)) \<or> py_gt p (lit (6 / 5))) \<or> (py_lt m (Finite 1000) \<or> py_gt m (Finite 3000))
       then map_of r ''failure_probability'' = Some (PFloat (py_min
              (foldl fadd (Finite 0) (map category_weight (filter (code_match (t, v, p, m)) rule_order)))
              (lit (19 / 20)))) \<and>
            map_of r ''failure_type'' = Some (PStr
              (case find (code_match (t, v, p, m)) rule_order of None \<Rightarrow> ''Unknown'' | Some c \<Rightarrow> category_type c))
       else map_of r ''failure_probability'' = None \<and> map_of r ''failure_type'' = None)"
proof -
  note c = scored_valuesD [OF sv]
  obtain x1 where x1: "fdiv v (py_max m (Finite 1)) = Inr x1" using fdiv_rpm_ok by blast
  obtain x2 where x2: "fdiv t (py_max p (lit (1 / 10))) = Inr x2" using fdiv_pressure_ok by blast
  show ?thesis
    unfolding process_sensor_data_def
    by (cases "py_gt t (Finite 90)"; cases "py_gt v (lit 5)";
        cases "py_lt p (lit (4 / 5)) \<or> py_gt p (lit (6 / 5))";
        cases "py_lt m (Finite 1000) \<or> py_gt m (Finite 3000)")
      (simp_all add: c x1 x2 Let_def map_of_dict_set rule_order_def code_match_def)
qed

lemma process_returns_iff:
  "(\<exists>r. process_sensor_data P now data = Inr r) \<longleftrightarrow> scored_values P data \<noteq> None"
proof
  assume "scored_values P data \<noteq> None"
  then obtain t v p m where "scored_values P data = Some (t, v, p, m)" by auto
  from psd_result [OF this] show "\<exists>r. process_sensor_data P now data = Inr r" by blast
next
  assume "\<exists>r. process_sensor_data P now data = Inr r"
  then show "scored_values P data \<noteq> None"
    unfolding process_sensor_data_def scored_values_def scored_field_def
    by (auto split: sum.splits)
qed

lemma code_match_spec:
  assumes "is_double v" "is_double p"
  shows "code_match (t, v, p, m) = (\<lambda>c. category_matches c (t, v, p, m))"
proof
  fix c
  show "code_match (t, v, p, m) c = category_matches c (t, v, p, m)"
    using assms
    by (cases c)
      (simp_all add: code_match_def lit_5 py_gt_def above_def below_def outside_range_def
        py_lt_lit_8_10 py_gt_lit_12_10 [unfolded py_gt_def])
qed

lemma scored_values_double:
  assumes "wf_floats P data" "scored_values P data = Some (t, v, p, m)"
  shows "is_double t" "is_double v" "is_double p" "is_double m"
  using assms(2) wf_floats_scored_field [OF assms(1)]
  by (auto simp: scored_values_def split: sum.splits)

lemma probability_table:
  "py_min (foldl fadd (Finite 0) (map category_weight (filter M rule_order))) (lit (19 / 20)) =
     Finite (probability_value (M Temperature) (M Vibration) (M Pressure) (M Rpm))"
  by (cases "M Temperature"; cases "M Vibration"; cases "M Pressure"; cases "M Rpm")
    (simp_all add: rule_order_def lit_1_10 lit_2_10 lit_3_10 lit_4_10 lit_95_100 py_min_def
      b64_sums)

lemma probability_value_mono:
  assumes "a \<longrightarrow> a'" "b \<longrightarrow> b'" "c \<longrightarrow> c'" "d \<longrightarrow> d'"
  shows "probability_value a b c d \<le> probability_value a' b' c' d'"
  using assms
  by (cases a; cases b; cases c; cases d; cases a'; cases b'; cases c'; cases d') simp_all

lemma probability_value_cap: "probability_value a b c d \<le> 19 / 20"
  by (cases a; cases b; cases c; cases d) simp_all

lemma probability_value_nonneg: "0 \<le> probability_value a b c d"
  by (cases a; cases b; cases c; cases d) simp_all

lemma outside_code:
  "(py_lt x (Finite lo) \<or> py_gt x (Finite hi)) = outside_range lo hi x"
  by (simp add: outside_range_def below_def above_def py_gt_def)

lemma outside_code_vibration:
  "is_double v \<Longrightarrow> (py_lt v (lit (1 / 10)) \<or> py_gt v (lit 5)) = outside_range (1 / 10) 5 v"
  by (simp add: outside_range_def py_lt_lit_1_10 lit_5 above_def py_gt_def)

lemma outside_code_pressure:
  "is_double p \<Longrightarrow> (py_lt p (lit (4 / 5)) \<or> py_gt p (lit (6 / 5))) = outside_range (4 / 5) (6 / 5) p"
  by (simp add: outside_range_def py_lt_lit_8_10 py_gt_lit_12_10)

lemma psd_spec:
  assumes wf: "wf_floats P data" and sv: "scored_values P data = Some (t, v, p, m)"
  shows "\<exists>r. process_sensor_data P now data = Inr r \<and>
      map_of r ''anomaly_detected'' = Some (PBool
        (outside_range 50 90 t \<or> outside_range (1 / 10) 5 v \<or>
         outside_range (4 / 5) (6 / 5) p \<or> outside_range 1000 3000 m)) \<and>
      (if outside_range 50 90 t \<or> outside_range (1 / 10) 5 v \<or>
          outside_range (4 / 5) (6 / 5) p \<or> outside_range 1000 3000 m
       then map_of r ''failure_probability'' = Some (PFloat (accumulated_probability (t, v, p, m))) \<and>
            map_of r ''failure_type'' = Some (PStr (first_matching_type (t, v, p, m)))
       else map_of r ''failure_probability'' = None \<and> map_of r ''failure_type'' = None)"
proof -
  note d = scored_values_double [OF wf sv]
  have acc: "accumulated_probability (t, v, p, m) =
      py_min (foldl fadd (Finite 0) (map category_weight (filter (code_match (t, v, p, m)) rule_order)))
        (lit (19 / 20))"
    by (simp add: accumulated_probability_def code_match_spec [OF d(2,3)])
  have fm: "first_matching_type (t, v, p, m) =
      (case find (code_match (t, v, p, m)) rule_order of None \<Rightarrow> ''Unknown'' | Some c \<Rightarrow> category_type c)"
    by (simp add: first_matching_type_def code_match_spec [OF d(2,3)])
  from psd_result [OF sv, of now] show ?thesis
    unfolding outside_code outside_code_vibration [OF d(2)] outside_code_pressure [OF d(3)]
      acc [symmetric] fm [symmetric]
    by blast
qed

lemma psd_spec_of_result:
  assumes wf: "wf_floats P data" and r: "process_sensor_data P now data = Inr r"
  obtains t v p m where "scored_values P data = Some (t, v, p, m)"
    and "map_of r ''anomaly_detected'' = Some (PBool
        (outside_range 50 90 t \<or> outside_range (1 / 10) 5 v \<or>
         outside_range (4 / 5) (6 / 5) p \<or> outside_range 1000 3000 m))"
    and "if outside_range 50 90 t \<or> outside_range (1 / 10) 5 v \<or>
          outside_range (4 / 5) (6 / 5) p \<or> outside_range 1000 3000 m
       then map_of r ''failure_probability'' = Some (PFloat (accumulated_probability (t, v, p, m))) \<and>
            map_of r ''failure_type'' = Some (PStr (first_matching_type (t, v, p, m)))
       else map_of r ''failure_probability'' = None \<and> map_of r ''failure_type'' = None"
proof -
  from r have "scored_values P data \<noteq> None" using process_returns_iff [of P now data] by blast
  then obtain t v p m where sv: "scored_values P data = Some (t, v, p, m)" by auto
  from psd_spec [OF wf sv, of now] r that [OF sv] show thesis by auto
qed

lemma accumulated_probability_value:
  "accumulated_probability x = Finite (probability_value (category_matches Temperature x)
     (category_matches Vibration x) (category_matches Pressure x) (category_matches Rpm x))"
  unfolding accumulated_probability_def
  using probability_table [of "\<lambda>c. category_matches c x"] by simp

lemma wf_floats_scenario_A: "wf_floats no_strings scenario_A"
  using is_b64_of_int [of 6] is_b64_of_int [of 1]
  by (auto simp: wf_floats_def scenario_A_def no_strings_def)

lemma scored_values_scenario_A:
  "scored_values no_strings scenario_A = Some (Finite 95, Finite 6, Finite 1, Finite 2000)"
  by (simp add: scored_values_def scored_field_def dict_get_def scenario_A_def float_of_int_exact
      no_strings_def)

lemma wf_floats_scenario_cold: "wf_floats no_strings scenario_cold"
  using is_b64_of_int [of 2] is_b64_of_int [of 1]
  by (auto simp: wf_floats_def scenario_cold_def no_strings_def)

lemma scored_values_scenario_cold:
  "scored_values no_strings scenario_cold = Some (Finite 20, Finite 2, Finite 1, Finite 2000)"
  by (simp add: scored_values_def scored_field_def dict_get_def scenario_cold_def float_of_int_exact
      no_strings_def)

lemma wf_floats_scenario_B: "wf_floats no_strings scenario_B"
  using is_b64_of_int [of 2] is_b64_of_int [of 1]
  by (auto simp: wf_floats_def scenario_B_def no_strings_def)

lemma scored_values_scenario_B:
  "scored_values no_strings scenario_B = Some (Finite 70, Finite 2, Finite 1, Finite 2000)"
  by (simp add: scored_values_def scored_field_def dict_get_def scenario_B_def float_of_int_exact
      no_strings_def)

lemmas range_simps = outside_range_def below_def above_def

lemma scenario_A_scored:
  "\<exists>r. process_sensor_data no_strings now scenario_A = Inr r \<and>
     map_of r ''anomaly_detected'' = Some (PBool True) \<and>
     map_of r ''failure_probability'' = Some (PFloat (Finite (3152519739159347 / 4503599627370496))) \<and>
     map_of r ''failure_type'' = Some (PStr ''Overheating'')"
  using psd_spec [OF wf_floats_scenario_A scored_values_scenario_A, of now]
  by (simp add: range_simps accumulated_probability_value first_matching_type_def rule_order_def)

lemma scenario_cold_scored:
  "\<exists>r. process_sensor_data no_strings now scenario_cold = Inr r \<and>
     map_of r ''anomaly_detected'' = Some (PBool True) \<and>
     map_of r ''failure_probability'' = Some (PFloat (Finite 0)) \<and>
     map_of r ''failure_type'' = Some (PStr ''Unknown'')"
  using psd_spec [OF wf_floats_scenario_cold scored_values_scenario_cold, of now]
  by (simp add: range_simps accumulated_probability_value first_matching_type_def rule_order_def)

text \<open>A NaN is neither below nor above a bound, so it is outside no range and in none.\<close>

lemma nan_is_not_outside: "\<not> outside_range lo hi NaN" "\<not> in_range lo hi NaN"
  by (simp_all add: outside_range_def below_def above_def)

lemma in_range_not_outside: "in_range lo hi x \<Longrightarrow> \<not> outside_range lo hi x"
  by (cases x) (auto simp: range_simps)

text \<open>
  Apart from NaN, being outside a range is not being in it, so that on samples of numbers
  each flag is the complement of the documented range.
\<close>

lemma outside_iff_not_in_range: "x \<noteq> NaN \<Longrightarrow> outside_range lo hi x \<longleftrightarrow> \<not> in_range lo hi x"
  by (cases x) (auto simp: range_simps)

lemma flags_of_numbers:
  assumes "wf_floats P data" and "scored_values P data = Some (t, v, p, m)"
    and "t \<noteq> NaN" and "v \<noteq> NaN" and "p \<noteq> NaN" and "m \<noteq> NaN"
  shows "\<exists>r. process_sensor_data P now data = Inr r \<and>
      map_of r ''temp_anomaly'' = Some (PBool (\<not> in_range 50 90 t)) \<and>
      map_of r ''vibration_anomaly'' = Some (PBool (\<not> in_range (1 / 10) 5 v)) \<and>
      map_of r ''pressure_anomaly'' = Some (PBool (\<not> in_range (4 / 5) (6 / 5) p)) \<and>
      map_of r ''rpm_anomaly'' = Some (PBool (\<not> in_range 1000 3000 m)) \<and>
      map_of r ''anomaly_detected'' = Some (PBool
        (\<not> in_range 50 90 t \<or> \<not> in_range (1 / 10) 5 v \<or>
         \<not> in_range (4 / 5) (6 / 5) p \<or> \<not> in_range 1000 3000 m))"
proof -
  note d = scored_values_double [OF assms(1,2)]
  from psd_result [OF assms(2), of now] obtain r where
    r: "process_sensor_data P now data = Inr r"
    and f: "map_of r ''temp_anomaly'' = Some (PBool (py_lt t (Finite 50) \<or> py_gt t (Finite 90)))"
      "map_of r ''vibration_anomaly'' = Some (PBool (py_lt v (lit (1 / 10)) \<or> py_gt v (lit 5)))"
      "map_of r ''pressure_anomaly'' = Some (PBool (py_lt p (lit (4 / 5)) \<or> py_gt p (lit (6 / 5))))"
      "map_of r ''rpm_anomaly'' = Some (PBool (py_lt m (Finite 1000) \<or> py_gt m (Finite 3000)))"
      "map_of r ''anomaly_detected'' = Some (PBool
         ((py_lt t (Finite 50) \<or> py_gt t (Finite 90)) \<or> (py_lt v (lit (1 / 10)) \<or> py_gt v (lit 5)) \<or>
          (py_lt p (lit (4 / 5)) \<or> py_gt p (lit (6 / 5))) \<or> (py_lt m (Finite 1000) \<or> py_gt m (Finite 3000))))"
    by blast
  show ?thesis
    using r f
    unfolding outside_code outside_code_vibration [OF d(2)] outside_code_pressure [OF d(3)]
      outside_iff_not_in_range [OF assms(3)] outside_iff_not_in_range [OF assms(4)]
      outside_iff_not_in_range [OF assms(5)] outside_iff_not_in_range [OF assms(6)]
    by blast
qed

lemma scored_values_scenario_nan:
  "scored_values no_strings scenario_nan = Some (NaN, Finite 2, Finite 1, Finite 2000)"
  by (simp add: scored_values_def scored_field_def dict_get_def scenario_nan_def float_of_int_exact
      no_strings_def)

lemma wf_floats_scenario_nan: "wf_floats no_strings scenario_nan"
  using is_b64_of_int [of 2] is_b64_of_int [of 1]
  by (auto simp: wf_floats_def scenario_nan_def no_strings_def)

section \<open>Facts about the mock generator\<close>

lemma fdiv_60_ok: "\<exists>x. fdiv y (Finite 60) = Inr x"
  by (cases y) simp_all

lemma mock_sample_returns:
  assumes "\<bar>rotation_speed d\<bar> < 2 ^ 53" "\<bar>torque d\<bar> < 2 ^ 53"
  shows "\<exists>s. mock_sample d = Inr s"
proof -
  obtain x where "fdiv (fmul (fmul (fmul (Finite 2) (lit (314159 / 100000)))
      (Finite (of_int (rotation_speed d)))) (Finite (of_int (torque d)))) (Finite 60) = Inr x"
    using fdiv_60_ok by blast
  then show ?thesis
    by (simp add: mock_sample_def float_of_int_exact [OF assms(1)] float_of_int_exact [OF assms(2)])
qed






lemma draw_0_returns: "\<exists>s. mock_sample draw_0 = Inr s"
  by (rule mock_sample_returns) (simp_all add: draw_0_def)

lemma b64_bounds:
  assumes "1 \<le> q" "q \<le> 2 ^ 100"
  obtains r where "b64 q = Finite r" "q * (1 - 1 / 2 ^ 53) \<le> r" "r \<le> q * (1 + 1 / 2 ^ 53)"
    "q / 2 \<le> r" "r \<le> 2 * q"
proof -
  from b64_rel_error [OF assms] obtain r where
    r: "b64 q = Finite r" "q * (1 - 1 / 2 ^ 53) \<le> r" "r \<le> q * (1 + 1 / 2 ^ 53)" by blast
  have "q / 2 \<le> q * (1 - 1 / 2 ^ 53)" "q * (1 + 1 / 2 ^ 53) \<le> 2 * q"
    using assms(1) by simp_all
  with r that show thesis by force
qed

lemma is_b64_two_pi_literal: "is_b64 (3537115888337719 / 562949953421312)"
  unfolding is_b64_def
  by (rule exI [of _ 3537115888337719], rule exI [of _ "- 49"]) simp

lemma mock_power_bounds:
  fixes R T :: rat
  assumes R: "1000 \<le> R" "R \<le> 3000" and T: "5 \<le> T" "T \<le> 75"
  shows "\<exists>r. fdiv (fmul (fmul (fmul (Finite 2) (lit (314159 / 100000))) (Finite R)) (Finite T))
            (Finite 60) = Inr (Finite r) \<and>
          \<bar>r - 2 * (314159 / 100000) * R * T / 60\<bar> \<le> (2 * (314159 / 100000) * R * T / 60) / 2 ^ 50"
proof -
  define a :: rat where "a = 1 - 1 / 2 ^ 53"
  define b :: rat where "b = 1 + 1 / 2 ^ 53"
  define c :: rat where "c = 3537115888337719 / 562949953421312"
  have a0: "0 \<le> a" and b0: "0 \<le> b" by (simp_all add: a_def b_def)
  have c0: "6 \<le> c" "c \<le> 7" by (simp_all add: c_def)
  have x0: "fmul (Finite 2) (lit (314159 / 100000)) = Finite c"
    using b64_exact [OF is_b64_two_pi_literal] by (simp add: lit_314159 c_def)
  define q1 where "q1 = c * R"
  have q1: "6000 \<le> q1" "q1 \<le> 21000"
    unfolding q1_def using mult_mono [of 6 c 1000 R] mult_mono [of c 7 R 3000] c0 R by simp_all
  from q1 have "1 \<le> q1" "q1 \<le> 2 ^ 100" by simp_all
  then obtain r1 where r1: "b64 q1 = Finite r1" "q1 * a \<le> r1" "r1 \<le> q1 * b" "q1 / 2 \<le> r1" "r1 \<le> 2 * q1"
    unfolding a_def b_def by (rule b64_bounds)
  have r1b: "3000 \<le> r1" "r1 \<le> 42000" using r1(4,5) q1 by simp_all
  define q2 where "q2 = r1 * T"
  have q2: "15000 \<le> q2" "q2 \<le> 3150000"
    unfolding q2_def using mult_mono [of 3000 r1 5 T] mult_mono [of r1 42000 T 75] r1b T by simp_all
  from q2 have "1 \<le> q2" "q2 \<le> 2 ^ 100" by simp_all
  then obtain r2 where r2: "b64 q2 = Finite r2" "q2 * a \<le> r2" "r2 \<le> q2 * b" "q2 / 2 \<le> r2" "r2 \<le> 2 * q2"
    unfolding a_def b_def by (rule b64_bounds)
  define q3 where "q3 = r2 / 60"
  have "1 \<le> q3" "q3 \<le> 2 ^ 100" unfolding q3_def using r2(4,5) q2 by simp_all
  then obtain r3 where r3: "b64 q3 = Finite r3" "q3 * a \<le> r3" "r3 \<le> q3 * b"
    unfolding a_def b_def by (rule b64_bounds)
  have ev: "fdiv (fmul (fmul (fmul (Finite 2) (lit (314159 / 100000))) (Finite R)) (Finite T))
            (Finite 60) = Inr (Finite r3)"
    by (simp add: x0 r1(1) [unfolded q1_def] r2(1) [unfolded q2_def] r3(1) [unfolded q3_def])
  define N where "N = R * T"
  have N0: "0 \<le> N" unfolding N_def using R T by simp
  have T0: "0 \<le> T" using T by simp
  have lo: "c * a * a * a / 60 * N \<le> r3"
  proof -
    have "q1 * a * T \<le> r1 * T" using r1(2) T0 by (rule mult_right_mono)
    then have "q1 * a * T * a \<le> q2 * a" unfolding q2_def using a0 by (rule mult_right_mono)
    with r2(2) have "q1 * a * T * a \<le> r2" by simp
    then have "q1 * a * T * a / 60 \<le> q3" unfolding q3_def by simp
    then have "q1 * a * T * a / 60 * a \<le> q3 * a" using a0 by (rule mult_right_mono)
    with r3(2) have "q1 * a * T * a / 60 * a \<le> r3" by simp
    moreover have "q1 * a * T * a / 60 * a = c * a * a * a / 60 * N"
      unfolding q1_def N_def by simp
    ultimately show ?thesis by (simp only:)
  qed
  have hi: "r3 \<le> c * b * b * b / 60 * N"
  proof -
    have "r1 * T \<le> q1 * b * T" using r1(3) T0 by (rule mult_right_mono)
    then have "q2 * b \<le> q1 * b * T * b" unfolding q2_def using b0 by (rule mult_right_mono)
    with r2(3) have "r2 \<le> q1 * b * T * b" by simp
    then have "q3 \<le> q1 * b * T * b / 60" unfolding q3_def by simp
    then have "q3 * b \<le> q1 * b * T * b / 60 * b" using b0 by (rule mult_right_mono)
    with r3(3) have "r3 \<le> q1 * b * T * b / 60 * b" by simp
    moreover have "q1 * b * T * b / 60 * b = c * b * b * b / 60 * N"
      unfolding q1_def N_def by simp
    ultimately show ?thesis by (simp only:)
  qed
  define X where "X = 2 * (314159 / 100000) * R * T / 60"
  have X: "X = 314159 / 3000000 * N" unfolding X_def N_def by simp
  have klo: "314159 / 3000000 * (1 - 1 / 2 ^ 50) \<le> c * a * a * a / 60"
    unfolding c_def a_def by simp
  have khi: "c * b * b * b / 60 \<le> 314159 / 3000000 * (1 + 1 / 2 ^ 50)"
    unfolding c_def b_def by simp
  have "314159 / 3000000 * (1 - 1 / 2 ^ 50) * N \<le> c * a * a * a / 60 * N"
    using klo N0 by (rule mult_right_mono)
  with lo have l: "X * (1 - 1 / 2 ^ 50) \<le> r3" unfolding X by (simp add: mult.assoc mult.left_commute mult.commute)
  have "c * b * b * b / 60 * N \<le> 314159 / 3000000 * (1 + 1 / 2 ^ 50) * N"
    using khi N0 by (rule mult_right_mono)
  with hi have h: "r3 \<le> X * (1 + 1 / 2 ^ 50)" unfolding X by (simp add: mult.assoc mult.left_commute mult.commute)
  from l h have "X - X / 2 ^ 50 \<le> r3" "r3 \<le> X + X / 2 ^ 50" by (simp_all add: algebra_simps)
  then have "\<bar>r3 - X\<bar> \<le> X / 2 ^ 50" by linarith
  with ev show ?thesis unfolding X_def by blast
qed

lemma arctan_partial_sums:
  fixes x :: real
  assumes "0 < x" "x \<le> 1"
  shows "(\<Sum>i<2 * n. (- 1) ^ i * (1 / real (i * 2 + 1) * x ^ (i * 2 + 1))) \<le> arctan x"
    and "arctan x \<le> (\<Sum>i<2 * n + 1. (- 1) ^ i * (1 / real (i * 2 + 1) * x ^ (i * 2 + 1)))"
proof -
  define a where "a = (\<lambda>n. 1 / real (n * 2 + 1) * x ^ (n * 2 + 1))"
  have ax: "\<bar>x\<bar> \<le> 1" using assms by simp
  have z: "a \<longlonglongrightarrow> 0" unfolding a_def using ax by (rule zeroseq_arctan_series)
  have m: "monoseq a" unfolding a_def using ax by (rule monoseq_arctan_series)
  have p: "0 < a 0" unfolding a_def using assms by simp
  from summable_Leibniz(2) [OF z m] p have
    "(\<Sum>i. (- 1) ^ i * a i) \<in> {\<Sum>i<2 * n. (- 1) ^ i * a i .. \<Sum>i<2 * n + 1. (- 1) ^ i * a i}"
    by blast
  moreover have "arctan x = (\<Sum>i. (- 1) ^ i * a i)" unfolding a_def using ax by (rule arctan_series)
  ultimately show "(\<Sum>i<2 * n. (- 1) ^ i * (1 / real (i * 2 + 1) * x ^ (i * 2 + 1))) \<le> arctan x"
    and "arctan x \<le> (\<Sum>i<2 * n + 1. (- 1) ^ i * (1 / real (i * 2 + 1) * x ^ (i * 2 + 1)))"
    unfolding a_def by simp_all
qed

lemma pi_lower_bound: "3141591 / 1000000 < pi"
proof -
  have l: "(\<Sum>i<2 * 2. (- 1) ^ i * (1 / real (i * 2 + 1) * (1 / 5) ^ (i * 2 + 1))) \<le> arctan (1 / 5)"
    by (rule arctan_partial_sums) simp_all
  have u: "arctan (1 / 239) \<le> (\<Sum>i<2 * 0 + 1. (- 1) ^ i * (1 / real (i * 2 + 1) * (1 / 239) ^ (i * 2 + 1)))"
    by (rule arctan_partial_sums) simp_all
  have l': "(1 / 5 - 1 / 375 + 1 / 15625 - 1 / 546875 :: real) \<le> arctan (1 / 5)"
    using l by (simp add: numeral_eq_Suc)
  have u': "arctan (1 / 239) \<le> (1 / 239 :: real)" using u by simp
  have "pi = 4 * (4 * arctan (1 / 5) - arctan (1 / 239))" using machin by simp
  with l' u' show ?thesis by simp
qed

lemma mock_sample_derived:
  assumes "randint_ranges d"
  shows "\<exists>s. mock_sample d = Inr s \<and> carries_draw d s \<and> derived_fields s"
proof -
  have rs: "\<bar>rotation_speed d\<bar> < 2 ^ 53" and tq: "\<bar>torque d\<bar> < 2 ^ 53"
    using assms by (simp_all add: randint_ranges_def)
  have R: "1000 \<le> (of_int (rotation_speed d) :: rat)" "(of_int (rotation_speed d) :: rat) \<le> 3000"
    and T: "5 \<le> (of_int (torque d) :: rat)" "(of_int (torque d) :: rat) \<le> 75"
    using assms by (simp_all add: randint_ranges_def)
  from mock_power_bounds [OF R T] obtain r where
    r: "fdiv (fmul (fmul (fmul (Finite 2) (lit (314159 / 100000)))
          (Finite (of_int (rotation_speed d)))) (Finite (of_int (torque d)))) (Finite 60) = Inr (Finite r)"
    and b: "\<bar>r - power_formula (rotation_speed d) (torque d)\<bar>
          \<le> power_formula (rotation_speed d) (torque d) / 2 ^ 50"
    unfolding power_formula_def by blast
  show ?thesis
    using b
    by (simp add: mock_sample_def float_of_int_exact [OF rs] float_of_int_exact [OF tq] r
        derived_fields_def carries_draw_def int_field_def del: fmul.simps)
qed

lemma b64_draw_0_1: "b64 (442139486042214875 / 70368744177664) = Finite (6908429469409607 / 1099511627776)"
  by (subst b64_normal [where e = 12 and n = 6908429469409607]) simp_all

lemma b64_draw_0_2: "b64 (34542147347048035 / 1099511627776) = Finite (8635536836762009 / 274877906944)"
  by (subst b64_normal [where e = 14 and n = 8635536836762009]) simp_all

lemma b64_draw_0_3: "b64 (8635536836762009 / 16492674416640) = Finite (4605619646273071 / 8796093022208)"
  by (subst b64_normal [where e = 9 and n = 4605619646273071]) simp_all

lemma draw_0_power:
  "result_field (mock_sample draw_0) ''power'' =
     Some (PFloat (Finite (4605619646273071 / 8796093022208)))"
  using b64_exact [OF is_b64_two_pi_literal]
  by (simp add: result_field_def mock_sample_def draw_0_def float_of_int_exact lit_314159
      b64_draw_0_1 b64_draw_0_2 b64_draw_0_3)

lemma draw_0_fields:
  "result_field (mock_sample draw_0) ''rotation_speed'' = Some (PInt 1000)"
  "result_field (mock_sample draw_0) ''torque'' = Some (PInt 5)"
  using draw_0_returns
  by (auto simp: result_field_def mock_sample_def draw_0_def Let_def split: sum.splits)

section \<open>Facts about the sink\<close>

lemma path_join_suffix:
  "\<exists>pre. \<forall>s. s \<noteq> [] \<and> hd s \<noteq> CHR ''/'' \<longrightarrow> path_join a (m @ s) = pre @ m @ s"
proof (cases "m = []")
  case True
  have "\<forall>s. s \<noteq> [] \<and> hd s \<noteq> CHR ''/'' \<longrightarrow>
      path_join a (m @ s) = (if a = [] \<or> last a = CHR ''/'' then a else a @ ''/'') @ m @ s"
    using True by (auto simp: path_join_def)
  then show ?thesis by blast
next
  case False
  have "\<forall>s. s \<noteq> [] \<and> hd s \<noteq> CHR ''/'' \<longrightarrow>
      path_join a (m @ s) = (if hd m = CHR ''/'' then [] else
         if a = [] \<or> last a = CHR ''/'' then a else a @ ''/'') @ m @ s"
    using False by (auto simp: path_join_def)
  then show ?thesis by blast
qed

lemma store_paths_distinct:
  "sensor_csv_path nr D d \<noteq> alerts_csv_path nr D d"
  "sensor_csv_path nr D d \<noteq> latest_alert_path nr D d"
  "alerts_csv_path nr D d \<noteq> latest_alert_path nr D d"
proof -
  define m where "m = py_str nr (dict_get d ''machine_id'' (PStr ''unknown''))"
  obtain pre where p: "\<And>s. s \<noteq> [] \<and> hd s \<noteq> CHR ''/'' \<Longrightarrow> path_join D (m @ s) = pre @ m @ s"
    using path_join_suffix [of D m] by blast
  show "sensor_csv_path nr D d \<noteq> alerts_csv_path nr D d"
    "sensor_csv_path nr D d \<noteq> latest_alert_path nr D d"
    "alerts_csv_path nr D d \<noteq> latest_alert_path nr D d"
    unfolding sensor_csv_path_def alerts_csv_path_def latest_alert_path_def m_def [symmetric]
    by (simp_all add: p)
qed

section \<open>Facts about the change monitor\<close>

lemma check_unchanged:
  assumes "csv_bytes w = Some b" "last_hash m = Some (md5_hexdigest L b)"
  shows "check_for_changes L clk m w = (m\<lparr>last_check_time := check_time clk\<rparr>, w)"
  using assms by (simp add: check_for_changes_def get_file_hash_def)

lemma check_unreadable:
  assumes "csv_bytes w = None"
  shows "check_for_changes L clk m w =
    (m\<lparr>last_check_time := check_time clk\<rparr>, w\<lparr>log := log w @ [LogError ''Error hashing file'']\<rparr>)"
  using assms by (simp add: check_for_changes_def get_file_hash_def)


lemma started_eval:
  "started = (\<lparr>container_name = ''model'', csv_path = ''app/data.csv'', check_interval = 300,
       backup_dir = ''./csv_backups'', metrics_dir = ''./metrics'',
       alert_email = Some ''ops@example.com'', last_hash = Some ''d41d8c'',
       last_check_time = ''2024-05-01 12:00:00''\<rparr>,
     \<lparr>csv_bytes = Some (''d41d8c'', 500), backup_files = [(''data.csv.20240501_120000'', (''copy'', 500))],
       metrics_files = [],
       name_unwritable = (\<lambda>n. False), docker_stats = None, smtp_accepts = True,
       alerts_raised = [], mails_delivered = [],
       log = [LogInfo ''Created backup'', LogInfo ''Started monitoring'', LogInfo ''Container'']\<rparr>)"
  by (simp add: started_def monitor_init_def get_file_hash_def backup_current_csv_def Let_def
      fresh_world_def row_libs_def clock_0_def basename_def)

lemma monitor_init_hash:
  "last_hash (fst (monitor_init L clk cn csv iv bd md em w)) =
     (case csv_bytes w of None \<Rightarrow> None | Some b \<Rightarrow> Some (md5_hexdigest L b))"
  "csv_bytes (snd (monitor_init L clk cn csv iv bd md em w)) = csv_bytes w"
  "metrics_files (snd (monitor_init L clk cn csv iv bd md em w)) = metrics_files w"
  "alerts_raised (snd (monitor_init L clk cn csv iv bd md em w)) = alerts_raised w"
  by (simp_all add: monitor_init_def get_file_hash_def backup_current_csv_def Let_def
      case_prod_beta split: option.splits)

lemma monitor_init_first_backup:
  assumes "csv_bytes w = Some b" "read_csv L b = Some df" "backup_files w = []"
    "\<not> name_unwritable w (basename csv @ ''.'' @ backup_stamp clk)"
  shows "backup_files (snd (monitor_init L clk cn csv iv bd md em w)) =
    [(basename csv @ ''.'' @ backup_stamp clk, to_csv L df)]"
  using assms
  by (simp add: monitor_init_def get_file_hash_def backup_current_csv_def Let_def)

lemma two_checks_after_init:
  assumes i: "monitor_init L c0 cn csv iv bd md em w0 = (m1, w1)"
    and c1: "check_for_changes L c1 m1 w1 = (m2, w2)"
    and c2: "check_for_changes L c2 m2 w2 = (m3, w3)"
  shows "backup_files w3 = backup_files w1 \<and> metrics_files w3 = metrics_files w1 \<and>
         alerts_raised w3 = alerts_raised w1 \<and> mails_delivered w3 = mails_delivered w1 \<and>
         (csv_bytes w0 \<noteq> None \<longrightarrow> w3 = w1)"
proof (cases "csv_bytes w0")
  case None
  from i have b: "csv_bytes w1 = None" using monitor_init_hash(2) [of L c0 cn csv iv bd md em w0] None
    by simp
  from c1 have 1: "w2 = w1\<lparr>log := log w1 @ [LogError ''Error hashing file'']\<rparr>"
    unfolding check_unreadable [OF b] by simp
  then have "csv_bytes w2 = None" using b by simp
  from c2 have "w3 = w2\<lparr>log := log w2 @ [LogError ''Error hashing file'']\<rparr>"
    unfolding check_unreadable [OF \<open>csv_bytes w2 = None\<close>] by simp
  with 1 None show ?thesis by simp
next
  case (Some b)
  from i have b: "csv_bytes w1 = Some b" and h: "last_hash m1 = Some (md5_hexdigest L b)"
    using monitor_init_hash(1,2) [of L c0 cn csv iv bd md em w0] Some by simp_all
  from c1 have 1: "w2 = w1" "m2 = m1\<lparr>last_check_time := check_time c1\<rparr>"
    unfolding check_unchanged [OF b h] by simp_all
  then have 2: "csv_bytes w2 = Some b" "last_hash m2 = Some (md5_hexdigest L b)" using b h by simp_all
  from c2 have "w3 = w2" unfolding check_unchanged [OF 2] by simp
  with 1 show ?thesis by simp
qed

lemma check_started:
  "check_for_changes row_libs clk (fst started) (snd started) =
     ((fst started)\<lparr>last_check_time := check_time clk\<rparr>, snd started)"
  by (rule check_unchanged [where b = "(''d41d8c'', 500)"]) (simp_all add: started_eval row_libs_def)















section \<open>The claims about the scorer\<close>

text \<open>
  C1 does not hold of the code. The claim sets each anomaly flag exactly when the value
  lies outside the documented range. A temperature that is not a number lies in no
  range, in particular not in [50, 90]; yet for the sample \<open>scenario_nan\<close>, whose other
  three values are in range, \<open>process_sensor_data\<close> returns a record with \<open>temp_anomaly\<close>
  false and \<open>anomaly_detected\<close> false, because both comparisons of the code,
  \<open>temperature < 50\<close> and \<open>temperature > 90\<close>, are false on NaN.
\<close>

theorem nan_temperature_not_flagged:
  "scored_values no_strings scenario_nan = Some (NaN, Finite 2, Finite 1, Finite 2000) \<and>
   \<not> in_range 50 90 NaN \<and>
   result_field (process_sensor_data no_strings ''2024-05-01 12:00:00'' scenario_nan) ''temp_anomaly'' =
     Some (PBool False) \<and>
   result_field (process_sensor_data no_strings ''2024-05-01 12:00:00'' scenario_nan) ''anomaly_detected'' =
     Some (PBool False)"
proof -
  note d = scored_values_double [OF wf_floats_scenario_nan scored_values_scenario_nan]
  from psd_result [OF scored_values_scenario_nan, of "''2024-05-01 12:00:00''"] obtain r where
    r: "process_sensor_data no_strings ''2024-05-01 12:00:00'' scenario_nan = Inr r"
    and f: "map_of r ''temp_anomaly'' = Some (PBool (py_lt NaN (Finite 50) \<or> py_gt NaN (Finite 90)))"
      "map_of r ''anomaly_detected'' = Some (PBool
         ((py_lt NaN (Finite 50) \<or> py_gt NaN (Finite 90)) \<or>
          (py_lt (Finite 2) (lit (1 / 10)) \<or> py_gt (Finite 2) (lit 5)) \<or>
          (py_lt (Finite 1) (lit (4 / 5)) \<or> py_gt (Finite 1) (lit (6 / 5))) \<or>
          (py_lt (Finite 2000) (Finite 1000) \<or> py_gt (Finite 2000) (Finite 3000))))"
    by blast
  have "map_of r ''temp_anomaly'' = Some (PBool False)"
    using f(1) unfolding outside_code by (simp add: range_simps)
  moreover have "map_of r ''anomaly_detected'' = Some (PBool False)"
    using f(2) unfolding outside_code outside_code_vibration [OF d(2)] outside_code_pressure [OF d(3)]
    by (simp add: range_simps)
  ultimately show ?thesis
    using r scored_values_scenario_nan by (simp add: result_field_def)
qed

text \<open>
  C2. The \<open>failure_probability\<close> of a scored record never exceeds 0.95, and it is
  monotone in the set of matching rule categories: when every category that matches a
  first sample also matches a second one, the probability of the first is at most that
  of the second.
\<close>

theorem failure_probability_capped_monotone:
  assumes "wf_floats P d1" and "wf_floats P d2"
    and "process_sensor_data P n1 d1 = Inr r1" and "process_sensor_data P n2 d2 = Inr r2"
    and "map_of r1 ''failure_probability'' = Some f1"
    and "map_of r2 ''failure_probability'' = Some f2"
    and "\<forall>c. sample_matches P d1 c \<longrightarrow> sample_matches P d2 c"
  shows "\<exists>q1 q2. f1 = PFloat (Finite q1) \<and> f2 = PFloat (Finite q2) \<and>
           q1 \<le> q2 \<and> q2 \<le> 19 / 20"
proof -
  from assms(1,3) obtain x1 where x1: "scored_values P d1 = Some x1"
    and p1: "map_of r1 ''failure_probability'' = Some (PFloat (accumulated_probability x1)) \<or>
      map_of r1 ''failure_probability'' = None"
    by (rule psd_spec_of_result) (auto split: if_splits)
  from assms(2,4) obtain x2 where x2: "scored_values P d2 = Some x2"
    and p2: "map_of r2 ''failure_probability'' = Some (PFloat (accumulated_probability x2)) \<or>
      map_of r2 ''failure_probability'' = None"
    by (rule psd_spec_of_result) (auto split: if_splits)
  from p1 assms(5) have f1: "f1 = PFloat (accumulated_probability x1)" by auto
  from p2 assms(6) have f2: "f2 = PFloat (accumulated_probability x2)" by auto
  have m: "category_matches c x1 \<longrightarrow> category_matches c x2" for c
    using assms(7) x1 x2 by (auto simp: sample_matches_def)
  show ?thesis
    unfolding f1 f2 accumulated_probability_value
    using probability_value_mono [OF m m m m] probability_value_cap by blast
qed

theorem failure_probability_capped_monotone_witness:
  "\<exists>r1 r2 q1 q2.
     process_sensor_data no_strings ''2024-05-01 12:00:00'' scenario_cold = Inr r1 \<and>
     process_sensor_data no_strings ''2024-05-01 12:00:01'' scenario_A = Inr r2 \<and>
     map_of r1 ''failure_probability'' = Some (PFloat (Finite q1)) \<and>
     map_of r2 ''failure_probability'' = Some (PFloat (Finite q2)) \<and>
     q1 \<le> q2 \<and> q2 \<le> 19 / 20"
proof -
  from scenario_cold_scored obtain r1 where
    r1: "process_sensor_data no_strings ''2024-05-01 12:00:00'' scenario_cold = Inr r1"
    and f1: "map_of r1 ''failure_probability'' = Some (PFloat (Finite 0))" by blast
  from scenario_A_scored obtain r2 where
    r2: "process_sensor_data no_strings ''2024-05-01 12:00:01'' scenario_A = Inr r2"
    and f2: "map_of r2 ''failure_probability'' =
      Some (PFloat (Finite (3152519739159347 / 4503599627370496)))" by blast
  have m: "\<forall>c. sample_matches no_strings scenario_cold c \<longrightarrow> sample_matches no_strings scenario_A c"
  proof
    fix c
    show "sample_matches no_strings scenario_cold c \<longrightarrow> sample_matches no_strings scenario_A c"
      by (cases c)
        (simp_all add: sample_matches_def scored_values_scenario_cold scored_values_scenario_A
          range_simps)
  qed
  from failure_probability_capped_monotone
    [OF wf_floats_scenario_cold wf_floats_scenario_A r1 r2 f1 f2 m]
  show ?thesis using r1 r2 f1 f2 by auto
qed

text \<open>
  C3. For every anomalous sample, one with a value below the lower or above the upper
  bound of its range, \<open>process_sensor_data\<close> returns a record whose \<open>failure_type\<close> is
  the type of the first matching category in the fixed order temperature (above its
  upper bound, Overheating), vibration (above its upper bound, Bearing Failure),
  pressure (outside its range, Pressure Issue), rpm (outside its range, Motor Issue),
  and Unknown when none matches; the \<open>failure_probability\<close> is the capped sum over all
  the matching categories, so a later match adds to the probability and leaves the type.
\<close>

theorem failure_type_first_match:
  assumes "wf_floats P data" and "scored_values P data = Some (t, v, p, m)"
    and "outside_range 50 90 t \<or> outside_range (1 / 10) 5 v \<or>
         outside_range (4 / 5) (6 / 5) p \<or> outside_range 1000 3000 m"
  shows "\<exists>r. process_sensor_data P now data = Inr r \<and>
           map_of r ''anomaly_detected'' = Some (PBool True) \<and>
           map_of r ''failure_type'' = Some (PStr (first_matching_type (t, v, p, m))) \<and>
           map_of r ''failure_probability'' = Some (PFloat (accumulated_probability (t, v, p, m)))"
  using psd_spec [OF assms(1,2), of now] assms(3) by auto

theorem failure_type_first_match_witness:
  "\<exists>r. process_sensor_data no_strings ''2024-05-01 12:00:00'' scenario_A = Inr r \<and>
     map_of r ''anomaly_detected'' = Some (PBool True) \<and>
     map_of r ''failure_type'' = Some (PStr ''Overheating'') \<and>
     map_of r ''failure_probability'' = Some (PFloat (lit (7 / 10)))"
  using failure_type_first_match [OF wf_floats_scenario_A scored_values_scenario_A,
      of "''2024-05-01 12:00:00''"]
  by (simp add: range_simps accumulated_probability_value first_matching_type_def rule_order_def
      lit_7_10)

text \<open>
  C4. For every sample whose four fields lie inside their normal ranges, the returned
  record has \<open>anomaly_detected\<close> false and holds neither a \<open>failure_probability\<close> nor a
  \<open>failure_type\<close> key.
\<close>

theorem no_failure_fields_in_range:
  assumes "wf_floats P data" and "scored_values P data = Some (t, v, p, m)"
    and "in_range 50 90 t" and "in_range (1 / 10) 5 v"
    and "in_range (4 / 5) (6 / 5) p" and "in_range 1000 3000 m"
  shows "\<exists>r. process_sensor_data P now data = Inr r \<and>
           map_of r ''anomaly_detected'' = Some (PBool False) \<and>
           ''failure_probability'' \<notin> fst ` set r \<and> ''failure_type'' \<notin> fst ` set r"
  using psd_spec [OF assms(1,2), of now] assms(3-6)
  by (auto simp: in_range_not_outside map_of_eq_None_iff)

theorem no_failure_fields_in_range_witness:
  "\<exists>r. process_sensor_data no_strings ''2024-05-01 12:00:00'' scenario_B = Inr r \<and>
     map_of r ''anomaly_detected'' = Some (PBool False) \<and>
     ''failure_probability'' \<notin> fst ` set r \<and> ''failure_type'' \<notin> fst ` set r"
  by (rule no_failure_fields_in_range [OF wf_floats_scenario_B scored_values_scenario_B]) simp_all

text \<open>
  C10. For every sample whose only anomalies are a temperature below 50 and/or a
  vibration below 0.1, pressure and rpm being in range, the returned record has
  \<open>anomaly_detected\<close> true, \<open>failure_probability\<close> 0.0 and \<open>failure_type\<close> Unknown.
\<close>

theorem low_only_anomaly_scores_zero:
  assumes "wf_floats P data" and "scored_values P data = Some (t, v, p, m)"
    and "below 50 t \<or> below (1 / 10) v"
    and "in_range 50 90 t \<or> below 50 t" and "in_range (1 / 10) 5 v \<or> below (1 / 10) v"
    and "in_range (4 / 5) (6 / 5) p" and "in_range 1000 3000 m"
  shows "\<exists>r. process_sensor_data P now data = Inr r \<and>
           map_of r ''anomaly_detected'' = Some (PBool True) \<and>
           map_of r ''failure_probability'' = Some (PFloat (Finite 0)) \<and>
           map_of r ''failure_type'' = Some (PStr ''Unknown'')"
proof -
  have nt: "\<not> above 90 t" using assms(4) by (cases t) (auto simp: range_simps)
  have nv: "\<not> above 5 v" using assms(5) by (cases v) (auto simp: range_simps)
  note np = in_range_not_outside [OF assms(6)]
  note nm = in_range_not_outside [OF assms(7)]
  have a: "outside_range 50 90 t \<or> outside_range (1 / 10) 5 v"
    using assms(3) by (auto simp: outside_range_def)
  from psd_spec [OF assms(1,2), of now] a nt nv np nm show ?thesis
    by (auto simp: accumulated_probability_value first_matching_type_def rule_order_def)
qed

theorem low_only_anomaly_scores_zero_witness:
  "\<exists>r. process_sensor_data no_strings ''2024-05-01 12:00:00'' scenario_cold = Inr r \<and>
     map_of r ''anomaly_detected'' = Some (PBool True) \<and>
     map_of r ''failure_probability'' = Some (PFloat (Finite 0)) \<and>
     map_of r ''failure_type'' = Some (PStr ''Unknown'')"
  by (rule low_only_anomaly_scores_zero [OF wf_floats_scenario_cold scored_values_scenario_cold])
    (simp_all add: range_simps)

section \<open>The claims about the mock generator\<close>



text \<open>
  C8 as amended. Every sample the mock generator puts on the queue holds the values
  drawn and, computed in the same iteration, the derived fields of its own raw fields:
  \<open>temp_diff\<close> is \<open>process_temp - air_temp\<close>, and \<open>power\<close> is
  \<open>2 * 3.14159 * rotation_speed * torque / 60\<close> in float arithmetic, within a relative
  error of \<open>2 ^ - 50\<close>. The constant 3.14159 stands for \<open>\<pi>\<close>.
\<close>

theorem mock_samples_carry_derived_fields:
  assumes "\<forall>d \<in> set ds. randint_ranges d"
  shows "\<exists>ss. generate_mock_data ds q = Inr (q @ ss) \<and>
           list_all2 (\<lambda>d s. carries_draw d s \<and> derived_fields s) ds ss"
  using assms
proof (induction ds arbitrary: q)
  case Nil
  then show ?case by simp
next
  case (Cons d ds)
  from Cons.prems have "randint_ranges d" by simp
  from mock_sample_derived [OF this] obtain s where
    s: "mock_sample d = Inr s" "carries_draw d s \<and> derived_fields s" by blast
  from Cons.IH [of "q @ [s]"] Cons.prems obtain ss where
    "generate_mock_data ds (q @ [s]) = Inr ((q @ [s]) @ ss)"
    "list_all2 (\<lambda>d s. carries_draw d s \<and> derived_fields s) ds ss"
    by auto
  with s have "generate_mock_data (d # ds) q = Inr (q @ (s # ss)) \<and>
      list_all2 (\<lambda>d s. carries_draw d s \<and> derived_fields s) (d # ds) (s # ss)" by simp
  then show ?case by blast
qed

theorem mock_samples_carry_derived_fields_witness:
  "\<exists>s. generate_mock_data [draw_0] [] = Inr [s] \<and> carries_draw draw_0 s \<and> derived_fields s"
proof -
  have "\<forall>d \<in> set [draw_0]. randint_ranges d" by (simp add: randint_ranges_def draw_0_def)
  from mock_samples_carry_derived_fields [OF this, of "[]"] show ?thesis
    by (auto simp: list_all2_Cons1)
qed

text \<open>
  C8 as stated fails. For the draw with rotation speed 1000 and torque 5 the sample
  holds these two values and a \<open>power\<close> that is below \<open>2\<pi> \<cdot> 1000 \<cdot> 5 / 60\<close> by more than
  the factor \<open>1 + 2 ^ - 22\<close>, far beyond the rounding of the float operations.
\<close>

theorem mock_power_two_pi_counterexample:
  "randint_ranges draw_0 \<and>
   result_field (mock_sample draw_0) ''rotation_speed'' = Some (PInt 1000) \<and>
   result_field (mock_sample draw_0) ''torque'' = Some (PInt 5) \<and>
   result_field (mock_sample draw_0) ''power'' =
     Some (PFloat (Finite (4605619646273071 / 8796093022208))) \<and>
   real_of_rat (4605619646273071 / 8796093022208) * (1 + 1 / 2 ^ 22) < 2 * pi * 1000 * 5 / 60"
proof -
  have "real_of_rat (4605619646273071 / 8796093022208) * (1 + 1 / 2 ^ 22)
      < 2 * (3141591 / 1000000) * 1000 * 5 / 60"
    by (simp add: of_rat_divide)
  also have "\<dots> < 2 * pi * 1000 * 5 / 60" using pi_lower_bound by simp
  finally show ?thesis
    using draw_0_power draw_0_fields by (simp add: randint_ranges_def draw_0_def)
qed

section \<open>The claim about the sink\<close>

text \<open>
  C5. \<open>store_data\<close> appends the record to the main CSV of its machine whether or not it
  is anomalous, with a header exactly when the file did not exist; it appends to the
  alerts CSV and overwrites the latest-alert JSON exactly when \<open>anomaly_detected\<close> is
  true; it touches no other file; and when a write fails it prints the error and
  returns False, so that the result is always a boolean and never an exception.
\<close>

theorem store_data_effects:
  "(let (ok, w') = store_data nr D w d;
        csv = sensor_csv_path nr D d;
        alerts = alerts_csv_path nr D d;
        json = latest_alert_path nr D d
    in
      (ok \<longleftrightarrow> \<not> write_fails w csv \<and>
         (anomalous d \<longrightarrow> \<not> write_fails w alerts \<and> \<not> write_fails w json)) \<and>
      (if write_fails w csv then files w' = files w
       else files w' csv = Some (appended w csv d)) \<and>
      (anomalous d \<and> \<not> write_fails w csv \<and> \<not> write_fails w alerts \<longrightarrow>
         files w' alerts = Some (appended w alerts d)) \<and>
      (anomalous d \<and> ok \<longrightarrow> files w' json = Some [JsonDoc d]) \<and>
      (\<not> anomalous d \<longrightarrow> files w' alerts = files w alerts \<and> files w' json = files w json) \<and>
      (\<forall>p. p \<noteq> csv \<and> p \<noteq> alerts \<and> p \<noteq> json \<longrightarrow> files w' p = files w p) \<and>
      stdout w' = stdout w @ (if ok then [] else [''Error storing data'']))"
  using store_paths_distinct [of nr D d]
  unfolding store_data_def sensor_csv_path_def alerts_csv_path_def latest_alert_path_def
    anomalous_def Let_def
  by (auto simp: to_csv_append_def json_dump_file_def store_failed_def appended_def
      split: option.splits)

theorem store_data_effects_witness:
  "fst (store_data plain_repr ''data'' empty_disk alert_record) \<and>
   files (snd (store_data plain_repr ''data'' empty_disk alert_record)) ''data/m1_sensor_data.csv'' =
     Some [HeaderLine [''machine_id'', ''temperature'', ''anomaly_detected''],
           RowLine [PStr ''m1'', PFloat (Finite 95), PBool True]] \<and>
   files (snd (store_data plain_repr ''data'' empty_disk alert_record)) ''data/m1_alerts.csv'' =
     Some [HeaderLine [''machine_id'', ''temperature'', ''anomaly_detected''],
           RowLine [PStr ''m1'', PFloat (Finite 95), PBool True]] \<and>
   files (snd (store_data plain_repr ''data'' empty_disk alert_record)) ''data/m1_latest_alert.json'' =
     Some [JsonDoc alert_record] \<and>
   \<not> fst (store_data plain_repr ''data'' full_disk quiet_record) \<and>
   files (snd (store_data plain_repr ''data'' full_disk quiet_record)) = Map.empty \<and>
   stdout (snd (store_data plain_repr ''data'' full_disk quiet_record)) = [''Error storing data'']"
proof -
  have p: "sensor_csv_path plain_repr ''data'' alert_record = ''data/m1_sensor_data.csv''"
    "alerts_csv_path plain_repr ''data'' alert_record = ''data/m1_alerts.csv''"
    "latest_alert_path plain_repr ''data'' alert_record = ''data/m1_latest_alert.json''"
    "anomalous alert_record" "\<not> anomalous quiet_record"
    by (simp_all add: sensor_csv_path_def alerts_csv_path_def latest_alert_path_def path_join_def
        dict_get_def alert_record_def quiet_record_def anomalous_def)
  have a: "appended empty_disk q alert_record =
      [HeaderLine [''machine_id'', ''temperature'', ''anomaly_detected''],
       RowLine [PStr ''m1'', PFloat (Finite 95), PBool True]]" for q
    by (simp add: appended_def empty_disk_def alert_record_def)
  have e: "write_fails empty_disk = (\<lambda>p. False)" "write_fails full_disk = (\<lambda>p. True)"
    "files full_disk = Map.empty" "stdout full_disk = []"
    by (simp_all add: empty_disk_def full_disk_def)
  from store_data_effects [of plain_repr "''data''" empty_disk alert_record]
    store_data_effects [of plain_repr "''data''" full_disk quiet_record]
  show ?thesis
    by (simp add: Let_def case_prod_beta p a e)
qed

section \<open>The claims about the change monitor\<close>

text \<open>
  C6. A check that finds the hash of the monitored file equal to the stored one changes
  nothing but the time of the last check: no backup, no metrics file, no alert. Hence
  two checks after the start of the monitor, on a file nobody modified, leave the
  backups, the reports and the alerts as the start left them; when the file is a
  readable CSV and the directories were empty, that is one snapshot and no report.
\<close>

theorem unchanged_file_check_is_silent:
  "(csv_bytes w = Some b \<and> last_hash m = Some (md5_hexdigest L b) \<longrightarrow>
      check_for_changes L clk m w = (m\<lparr>last_check_time := check_time clk\<rparr>, w)) \<and>
   (monitor_init L c0 cn csv iv bd md em w0 = (m1, w1) \<and>
    check_for_changes L c1 m1 w1 = (m2, w2) \<and>
    check_for_changes L c2 m2 w2 = (m3, w3) \<longrightarrow>
      backup_files w3 = backup_files w1 \<and> metrics_files w3 = metrics_files w1 \<and>
      alerts_raised w3 = alerts_raised w1 \<and> mails_delivered w3 = mails_delivered w1 \<and>
      (csv_bytes w0 \<noteq> None \<longrightarrow> w3 = w1) \<and>
      (\<forall>b0 df. csv_bytes w0 = Some b0 \<and> read_csv L b0 = Some df \<and> backup_files w0 = [] \<and>
         metrics_files w0 = [] \<and> \<not> name_unwritable w0 (basename csv @ ''.'' @ backup_stamp c0) \<longrightarrow>
         backup_files w3 = [(basename csv @ ''.'' @ backup_stamp c0, to_csv L df)] \<and>
         metrics_files w3 = []))"
proof (intro conjI impI allI)
  assume "csv_bytes w = Some b \<and> last_hash m = Some (md5_hexdigest L b)"
  then show "check_for_changes L clk m w = (m\<lparr>last_check_time := check_time clk\<rparr>, w)"
    by (simp add: check_unchanged)
next
  assume a: "monitor_init L c0 cn csv iv bd md em w0 = (m1, w1) \<and>
    check_for_changes L c1 m1 w1 = (m2, w2) \<and> check_for_changes L c2 m2 w2 = (m3, w3)"
  then have t: "backup_files w3 = backup_files w1 \<and> metrics_files w3 = metrics_files w1 \<and>
         alerts_raised w3 = alerts_raised w1 \<and> mails_delivered w3 = mails_delivered w1 \<and>
         (csv_bytes w0 \<noteq> None \<longrightarrow> w3 = w1)"
    using two_checks_after_init by blast
  from t show "backup_files w3 = backup_files w1" "metrics_files w3 = metrics_files w1"
    "alerts_raised w3 = alerts_raised w1" "mails_delivered w3 = mails_delivered w1" by simp_all
  { assume "csv_bytes w0 \<noteq> None" with t show "w3 = w1" by simp }
  fix b0 df
  assume f: "csv_bytes w0 = Some b0 \<and> read_csv L b0 = Some df \<and> backup_files w0 = [] \<and>
         metrics_files w0 = [] \<and> \<not> name_unwritable w0 (basename csv @ ''.'' @ backup_stamp c0)"
  from a have w1: "w1 = snd (monitor_init L c0 cn csv iv bd md em w0)" by simp
  from f show "backup_files w3 = [(basename csv @ ''.'' @ backup_stamp c0, to_csv L df)]"
    using t unfolding w1 by (simp add: monitor_init_first_backup)
  from f show "metrics_files w3 = []"
    using t unfolding w1 by (simp add: monitor_init_hash)
qed

theorem unchanged_file_check_is_silent_witness:
  "backup_files (snd (check_for_changes row_libs clock_2
      (fst (check_for_changes row_libs clock_1 (fst started) (snd started)))
      (snd (check_for_changes row_libs clock_1 (fst started) (snd started))))) =
     [(''data.csv.20240501_120000'', (''copy'', 500))] \<and>
   metrics_files (snd (check_for_changes row_libs clock_2
      (fst (check_for_changes row_libs clock_1 (fst started) (snd started)))
      (snd (check_for_changes row_libs clock_1 (fst started) (snd started))))) = [] \<and>
   snd (check_for_changes row_libs clock_1 (fst started) (snd started)) = snd started"
proof -
  define r1 where "r1 = check_for_changes row_libs clock_1 (fst started) (snd started)"
  define r2 where "r2 = check_for_changes row_libs clock_2 (fst r1) (snd r1)"
  have prem: "monitor_init row_libs clock_0 ''model'' ''app/data.csv'' 300 ''./csv_backups''
       ''./metrics'' (Some ''ops@example.com'') fresh_world = (fst started, snd started) \<and>
     check_for_changes row_libs clock_1 (fst started) (snd started) = (fst r1, snd r1) \<and>
     check_for_changes row_libs clock_2 (fst r1) (snd r1) = (fst r2, snd r2)"
    by (simp add: started_def r1_def r2_def)
  have f: "csv_bytes fresh_world = Some (''d41d8c'', 500) \<and> read_csv row_libs (''d41d8c'', 500) = Some 500 \<and>
      backup_files fresh_world = [] \<and> metrics_files fresh_world = [] \<and>
      \<not> name_unwritable fresh_world (basename ''app/data.csv'' @ ''.'' @ backup_stamp clock_0)"
    by (simp add: fresh_world_def row_libs_def)
  have h: "csv_bytes (snd started) = Some (''d41d8c'', 500) \<and>
      last_hash (fst started) = Some (md5_hexdigest row_libs (''d41d8c'', 500))"
    by (simp add: started_eval row_libs_def)
  note T = unchanged_file_check_is_silent [of "snd started" "(''d41d8c'', 500)" "fst started" row_libs
      clock_1 clock_0 "''model''" "''app/data.csv''" 300 "''./csv_backups''" "''./metrics''"
      "Some ''ops@example.com''" fresh_world "fst started" "snd started" clock_1 "fst r1" "snd r1"
      clock_2 "fst r2" "snd r2"]
  from T [THEN conjunct2, THEN mp, OF prem] f
  have 1: "backup_files (snd r2) =
      [(basename ''app/data.csv'' @ ''.'' @ backup_stamp clock_0, to_csv row_libs 500)] \<and>
      metrics_files (snd r2) = []"
    by blast
  from T [THEN conjunct1, THEN mp, OF h] have 2: "snd r1 = snd started"
    unfolding r1_def by simp
  from 1 2 show ?thesis
    unfolding r1_def [symmetric] r2_def [symmetric]
    by (simp add: basename_def clock_0_def row_libs_def)
qed




end
